theory Spec2Isabelle
  imports Complex_Main "HOL-Library.Word"
begin

section \<open>Python values, strings and errors\<close>

text \<open>
  Exceptions of the source are values. \<open>RuntimeError\<close> is the configuration error raised by
  \<open>AnswerGenerator.generate\<close>; \<open>AttributeError\<close>, \<open>TypeError\<close> and \<open>IndexError\<close> are the
  built-in exceptions the modelled code can raise; \<open>JSONDecodeError\<close>, \<open>RecursionError\<close> and
  \<open>ValueError\<close> are the exceptions of \<open>json.loads\<close> (\<open>ValueError\<close> is a \<open>ValueError\<close> that is
  not a \<open>JSONDecodeError\<close>); \<open>UpstreamError\<close> is any exception of the external generation
  service.
\<close>

datatype error =
    RuntimeError
  | AttributeError
  | TypeError
  | IndexError
  | JSONDecodeError
  | RecursionError
  | ValueError
  | UpstreamError string

text \<open>
  The values \<open>json.loads\<close> can return. A dict is an association list in insertion order
  (keys of a decoded object are distinct); a lookup takes the binding of the key.
\<close>

datatype pyval =
    PNone
  | PBool bool
  | PInt int
  | PFloat real
  | PStr string
  | PList "pyval list"
  | PDict "(string \<times> pyval) list"

text \<open>
  A Python \<open>str\<close> is a \<open>string\<close>, one \<open>char\<close> per code point (the code points below 256).
  \<open>is_space\<close> is \<open>str.isspace\<close> on one character, which is also what \<open>str.strip()\<close>
  removes and what \<open>\s\<close> matches in a \<open>str\<close> pattern: the code points 9 to 13, 28 to 32,
  133 and 160.
\<close>

definition is_space :: "char \<Rightarrow> bool" where
  "is_space c =
     (let n = (of_char c :: nat)
      in (9 \<le> n \<and> n \<le> 13) \<or> (28 \<le> n \<and> n \<le> 32) \<or> n = 133 \<or> n = 160)"

definition strip :: "string \<Rightarrow> string" where
  "strip s = rev (dropWhile is_space (rev (dropWhile is_space s)))"

text \<open>\<open>starts_with p s\<close>: \<open>s\<close> begins with \<open>p\<close>. \<open>contains p s\<close> is Python's \<open>p in s\<close>.\<close>

definition starts_with :: "string \<Rightarrow> string \<Rightarrow> bool" where
  "starts_with p s = (take (length p) s = p)"

fun contains :: "string \<Rightarrow> string \<Rightarrow> bool" where
  "contains p [] = (p = [])"
| "contains p (c # cs) = (starts_with p (c # cs) \<or> contains p cs)"

text \<open>\<open>str(n)\<close> for an integer: decimal digits, with a minus sign for a negative number.\<close>

definition digit_char :: "nat \<Rightarrow> char" where
  "digit_char d = ''0123456789'' ! d"

fun str_nat :: "nat \<Rightarrow> string" where
  "str_nat n = (if n < 10 then [digit_char n] else str_nat (n div 10) @ [digit_char (n mod 10)])"

declare str_nat.simps [simp del]

definition str_int :: "int \<Rightarrow> string" where
  "str_int i = (if i < 0 then CHR ''-'' # str_nat (nat (- i)) else str_nat (nat i))"

text \<open>
  The interpreter refuses to format an integer of more than 4300 decimal digits (a
  \<open>ValueError\<close>, under the default \<open>sys.int_info.default_max_str_digits\<close>); \<open>str_int\<close> is \<open>str\<close>
  on the other integers. The source formats the page numbers, in \<open>_format_context\<close> and
  in \<open>_generate_chunk_id\<close>, and the chunk sizes, in the log line of \<open>TextChunker.__init__\<close>.
  What is stated below about a run that formats such an integer and returns is stated for
  integers \<open>within_digit_limit\<close>.
\<close>

definition within_digit_limit :: "int \<Rightarrow> bool" where
  "within_digit_limit i \<longleftrightarrow> \<bar>i\<bar> < 10 ^ 4300"

text \<open>\<open>sep.join(parts)\<close>.\<close>

fun join :: "string \<Rightarrow> string list \<Rightarrow> string" where
  "join sep [] = []"
| "join sep [p] = p"
| "join sep (p # q # ps) = p @ sep @ join sep (q # ps)"

text \<open>
  \<open>d.get(key, default)\<close>: an \<open>AttributeError\<close> on anything that is not a dict, since no other
  value \<open>json.loads\<close> returns has a \<open>get\<close> attribute.
\<close>

fun dict_get :: "pyval \<Rightarrow> string \<Rightarrow> pyval \<Rightarrow> error + pyval" where
  "dict_get (PDict kvs) k d = Inr (case map_of kvs k of None \<Rightarrow> d | Some v \<Rightarrow> v)"
| "dict_get _ k d = Inl AttributeError"

text \<open>
  The elements a \<open>for\<close> loop visits: the items of a list, the keys of a dict, the
  characters of a string; the other values are not iterable (\<open>TypeError\<close>).
\<close>

fun py_iter :: "pyval \<Rightarrow> error + pyval list" where
  "py_iter (PList xs) = Inr xs"
| "py_iter (PDict kvs) = Inr (map (\<lambda>kv. PStr (fst kv)) kvs)"
| "py_iter (PStr s) = Inr (map (\<lambda>c. PStr [c]) s)"
| "py_iter _ = Inl TypeError"

section \<open>Retrieved chunks, source references and answers\<close>

text \<open>
  \<open>RetrievedChunk\<close> (retriever.py). The score is \<open>None\<close> when the record of the vector store
  binds \<open>distance\<close> to \<open>None\<close>.
\<close>

record RetrievedChunk =
  rc_document_name :: string
  rc_page_number :: int
  rc_chunk_id :: string
  rc_text :: string
  rc_score :: "real option"
  rc_is_section :: bool

text \<open>
  \<open>SourceReference\<close> and \<open>AnswerResponse\<close> (answer_generator.py). The dataclasses do not check
  their field types: \<open>document_name\<close>, \<open>page\<close> and \<open>answer\<close> hold whatever value the decoded
  payload holds.
\<close>

record SourceReference =
  sr_document_name :: pyval
  sr_page :: pyval
  sr_chunk_id :: string
  sr_is_section :: bool

record AnswerResponse =
  answer :: pyval
  sources :: "SourceReference list"

definition NO_INFO_RESPONSE :: string where
  "NO_INFO_RESPONSE = ''The provided documents do not contain this information.''"

definition refusal :: AnswerResponse where
  "refusal = \<lparr>answer = PStr NO_INFO_RESPONSE, sources = []\<rparr>"

section \<open>The answer validator: \<open>AnswerGenerator._parse_response\<close>\<close>

text \<open>
  \<open>re.search(opener + r'\s*(.*?)\s*```', text, re.DOTALL)\<close> for a non-empty literal
  \<open>opener\<close>, returning group 1 of the leftmost match. After the opener the greedy \<open>\s*\<close>
  takes the whole run of whitespace; the lazy group then grows one character at a time
  until what follows is whitespace and three backticks (\<open>closes\<close>). Giving back whitespace
  of the first \<open>\s*\<close> finds no further match, since the group would only cross that same
  whitespace again.
\<close>

definition closes :: "string \<Rightarrow> bool" where
  "closes s = starts_with ''```'' (dropWhile is_space s)"

fun match_close :: "string \<Rightarrow> string option" where
  "match_close [] = (if closes [] then Some [] else None)"
| "match_close (c # cs) =
     (if closes (c # cs) then Some []
      else (case match_close cs of None \<Rightarrow> None | Some g \<Rightarrow> Some (c # g)))"

fun re_search :: "string \<Rightarrow> string \<Rightarrow> string option" where
  "re_search opener [] = None"
| "re_search opener (c # cs) =
     (if starts_with opener (c # cs)
      then (case match_close (dropWhile is_space (drop (length opener) (c # cs))) of
              Some g \<Rightarrow> Some g
            | None \<Rightarrow> re_search opener cs)
      else re_search opener cs)"

text \<open>The first lines of \<open>_parse_response\<close>: remove a fenced code block if there is one.\<close>

definition extract_json_text :: "string \<Rightarrow> string" where
  "extract_json_text response_text =
     (if contains ''```json'' response_text
      then (case re_search ''```json'' response_text of
              Some g \<Rightarrow> g | None \<Rightarrow> response_text)
      else if contains ''```'' response_text
      then (case re_search ''```'' response_text of
              Some g \<Rightarrow> g | None \<Rightarrow> response_text)
      else response_text)"

text \<open>
  \<open>chunk_section_map\<close>: the dict comprehension \<open>{chunk.chunk_id: chunk.is_section for chunk in
  retrieved_chunks}\<close>; a later chunk with the same id replaces an earlier one.
  \<open>valid_chunk_ids\<close> is the set of its keys.
\<close>

definition chunk_section_map :: "RetrievedChunk list \<Rightarrow> (string \<rightharpoonup> bool)" where
  "chunk_section_map retrieved_chunks =
     fold (\<lambda>chunk m. m(rc_chunk_id chunk \<mapsto> rc_is_section chunk)) retrieved_chunks Map.empty"

text \<open>
  \<open>chunk_id in valid_chunk_ids\<close>: the set holds strings only, so only an equal string is a
  member; a list or a dict is unhashable (\<open>TypeError\<close>).
\<close>

fun in_valid :: "pyval \<Rightarrow> (string \<rightharpoonup> bool) \<Rightarrow> error + bool" where
  "in_valid (PStr s) m = Inr (m s \<noteq> None)"
| "in_valid (PList xs) m = Inl TypeError"
| "in_valid (PDict kvs) m = Inl TypeError"
| "in_valid _ m = Inr False"

text \<open>
  One iteration of the loop over \<open>raw_sources\<close>: \<open>None\<close> when the source is filtered
  out, the \<open>SourceReference\<close> appended otherwise. \<open>in_valid\<close> answers \<open>True\<close> for a string
  only, so the \<open>chunk_id\<close> of a reference is that string.
\<close>

definition check_source :: "(string \<rightharpoonup> bool) \<Rightarrow> pyval \<Rightarrow> error + SourceReference option" where
  "check_source m source =
     (case dict_get source ''chunk_id'' (PStr []) of
        Inl e \<Rightarrow> Inl e
      | Inr cid \<Rightarrow>
          (case in_valid cid m of
             Inl e \<Rightarrow> Inl e
           | Inr ok \<Rightarrow>
               (if ok then
                  (case dict_get source ''document_name'' (PStr ''unknown'') of
                     Inl e \<Rightarrow> Inl e
                   | Inr dn \<Rightarrow>
                       (case dict_get source ''page'' (PInt 0) of
                          Inl e \<Rightarrow> Inl e
                        | Inr pg \<Rightarrow>
                            Inr (Some \<lparr>sr_document_name = dn, sr_page = pg,
                                       sr_chunk_id = (case cid of PStr s \<Rightarrow> s | _ \<Rightarrow> []),
                                       sr_is_section =
                                         (case cid of
                                            PStr s \<Rightarrow> (case m s of Some b \<Rightarrow> b | None \<Rightarrow> False)
                                          | _ \<Rightarrow> False)\<rparr>)))
                else Inr None)))"

text \<open>The loop: an exception in any iteration ends the whole call.\<close>

fun collect_sources :: "(string \<rightharpoonup> bool) \<Rightarrow> pyval list \<Rightarrow> error + SourceReference list" where
  "collect_sources m [] = Inr []"
| "collect_sources m (source # rest) =
     (case check_source m source of
        Inl e \<Rightarrow> Inl e
      | Inr r \<Rightarrow>
          (case collect_sources m rest of
             Inl e \<Rightarrow> Inl e
           | Inr srcs \<Rightarrow> Inr (case r of None \<Rightarrow> srcs | Some ref \<Rightarrow> ref # srcs)))"

text \<open>The body of the \<open>try\<close> block after \<open>json.loads\<close> has returned \<open>parsed\<close>.\<close>

definition validate :: "pyval \<Rightarrow> RetrievedChunk list \<Rightarrow> error + AnswerResponse" where
  "validate parsed retrieved_chunks =
     (case dict_get parsed ''answer'' (PStr NO_INFO_RESPONSE) of
        Inl e \<Rightarrow> Inl e
      | Inr ans \<Rightarrow>
          (case dict_get parsed ''sources'' (PList []) of
             Inl e \<Rightarrow> Inl e
           | Inr raw_sources \<Rightarrow>
               (case py_iter raw_sources of
                  Inl e \<Rightarrow> Inl e
                | Inr items \<Rightarrow>
                    (case collect_sources (chunk_section_map retrieved_chunks) items of
                       Inl e \<Rightarrow> Inl e
                     | Inr srcs \<Rightarrow> Inr \<lparr>answer = ans, sources = srcs\<rparr>))))"

text \<open>
  \<open>_parse_response\<close>. \<open>loads\<close> is \<open>json.loads\<close>, from the text to the decoded value or to the
  exception it raises: a \<open>JSONDecodeError\<close> for a text that is not a JSON document, a
  \<open>RecursionError\<close> for a text nested too deeply, a \<open>ValueError\<close> for a number with too many
  digits. \<open>parse_body\<close> is the body of the \<open>try\<close> block; the \<open>except\<close> clause catches a
  \<open>JSONDecodeError\<close> and nothing else.
\<close>

type_synonym decoder = "string \<Rightarrow> error + pyval"

definition parse_body ::
  "decoder \<Rightarrow> string \<Rightarrow> RetrievedChunk list \<Rightarrow> error + AnswerResponse" where
  "parse_body loads response_text retrieved_chunks =
     (case loads (strip (extract_json_text response_text)) of
        Inl e \<Rightarrow> Inl e
      | Inr parsed \<Rightarrow> validate parsed retrieved_chunks)"

definition parse_response ::
  "decoder \<Rightarrow> string \<Rightarrow> RetrievedChunk list \<Rightarrow> error + AnswerResponse" where
  "parse_response loads response_text retrieved_chunks =
     (case parse_body loads response_text retrieved_chunks of
        Inl e \<Rightarrow> if e = JSONDecodeError then Inr refusal else Inl e
      | Inr response \<Rightarrow> Inr response)"

section \<open>The answer operation: \<open>AnswerGenerator.generate\<close>\<close>

text \<open>
  The generator holds its client, \<open>None\<close> when no API key is configured. The client is
  the call \<open>chat.completions.create\<close> with the fixed system prompt and parameters followed by
  \<open>response.choices[0].message.content\<close>: from the user message to the completion text,
  or to the exception the service raises.
\<close>

type_synonym client = "string \<Rightarrow> error + string"

record AnswerGenerator =
  client :: "client option"

text \<open>
  \<open>__init__\<close>: no client for an empty API key or the placeholder of the sample
  configuration. \<open>connect\<close> is the constructor \<open>Groq(api_key=...)\<close>.
\<close>

definition AnswerGenerator_init :: "(string \<Rightarrow> client) \<Rightarrow> string \<Rightarrow> AnswerGenerator" where
  "AnswerGenerator_init connect groq_api_key =
     (if groq_api_key = [] \<or> groq_api_key = ''your_groq_api_key_here''
      then \<lparr>client = None\<rparr>
      else \<lparr>client = Some (connect groq_api_key)\<rparr>)"

definition nl :: string where
  "nl = [CHR 0x0A]"

fun context_parts :: "nat \<Rightarrow> RetrievedChunk list \<Rightarrow> string list" where
  "context_parts i [] = []"
| "context_parts i (chunk # chunks) =
     (''--- Retrieved Chunk '' @ str_nat i @ '' ---'' @ nl
      @ ''document_name: '' @ rc_document_name chunk @ nl
      @ ''page_number: '' @ str_int (rc_page_number chunk) @ nl
      @ ''chunk_id: '' @ rc_chunk_id chunk @ nl
      @ ''text: '' @ rc_text chunk @ nl) # context_parts (Suc i) chunks"

definition format_context :: "RetrievedChunk list \<Rightarrow> string" where
  "format_context chunks = join nl (context_parts 1 chunks)"

definition build_user_message :: "string \<Rightarrow> string \<Rightarrow> string" where
  "build_user_message question context =
     ''### User Question'' @ nl @ question @ nl @ nl
     @ ''### Retrieved Document Chunks'' @ nl @ context @ nl @ nl
     @ ''### Instructions'' @ nl
     @ ''Based ONLY on the retrieved document chunks above, answer the user'' @ [CHR 0x27]
     @ ''s question.'' @ nl
     @ ''Return your response as a JSON object with '' @ [CHR 0x22] @ ''answer'' @ [CHR 0x22]
     @ '' and '' @ [CHR 0x22] @ ''sources'' @ [CHR 0x22] @ '' fields.'' @ nl
     @ ''If the answer is not in the chunks, respond with the no-information message.''"

text \<open>
  \<open>generate\<close> returns its outcome and the user messages it sent to the generation service,
  in order: the empty list when the service was not invoked. The \<open>except Exception\<close> clause
  logs and raises again, so an exception of the call or of \<open>_parse_response\<close> is the outcome.
\<close>

definition generate ::
  "decoder \<Rightarrow> AnswerGenerator \<Rightarrow> string \<Rightarrow> RetrievedChunk list
     \<Rightarrow> (error + AnswerResponse) \<times> string list" where
  "generate loads self question retrieved_chunks =
     (case client self of
        None \<Rightarrow> (Inl RuntimeError, [])
      | Some call \<Rightarrow>
          (if retrieved_chunks = [] then (Inr refusal, [])
           else
             (let user_message = build_user_message question (format_context retrieved_chunks)
              in (case call user_message of
                    Inl e \<Rightarrow> (Inl e, [user_message])
                  | Inr content \<Rightarrow>
                      (parse_response loads (strip content) retrieved_chunks, [user_message])))))"

text \<open>
  Completion texts for concrete runs, and a finite part of \<open>json.loads\<close>: each of the
  texts with the value \<open>json.loads\<close> returns for it or the exception it raises: a
  \<open>RecursionError\<close> for \<open>text_deep\<close>, a thousand opening brackets, and a \<open>JSONDecodeError\<close>
  for \<open>text_prose\<close> and for \<open>Paris.\<close>, the content of the fenced block \<open>text_fenced\<close>.
  \<open>sample_loads\<close> is used at these texts only.
\<close>

definition dq :: string where
  "dq = [CHR 0x22]"

definition text_array :: string where
  "text_array = ''[]''"

definition text_prose :: string where
  "text_prose = ''Paris is the capital of France.''"

definition text_fenced :: string where
  "text_fenced = ''```json'' @ [CHR 0x0A] @ ''Paris.'' @ [CHR 0x0A] @ ''```''"

definition text_deep :: string where
  "text_deep = replicate 1000 (CHR ''['')"

definition text_bogus :: string where
  "text_bogus =
     ''{'' @ dq @ ''answer'' @ dq @ '':'' @ dq @ ''Paris.'' @ dq @ '','' @ dq @ ''sources'' @ dq
     @ '':[{'' @ dq @ ''chunk_id'' @ dq @ '':'' @ dq @ ''bogus_id'' @ dq @ ''}]}''"

definition text_mixed :: string where
  "text_mixed =
     ''{'' @ dq @ ''answer'' @ dq @ '':'' @ dq @ ''Paris.'' @ dq @ '','' @ dq @ ''sources'' @ dq
     @ '':[{'' @ dq @ ''document_name'' @ dq @ '':'' @ dq @ ''b.txt'' @ dq @ '',''
     @ dq @ ''chunk_id'' @ dq @ '':'' @ dq @ ''c1'' @ dq @ ''},{''
     @ dq @ ''chunk_id'' @ dq @ '':'' @ dq @ ''bogus_id'' @ dq @ ''}]}''"

definition text_refusal_cited :: string where
  "text_refusal_cited =
     ''{'' @ dq @ ''answer'' @ dq @ '':'' @ dq @ NO_INFO_RESPONSE @ dq @ '','' @ dq @ ''sources''
     @ dq @ '':[{'' @ dq @ ''chunk_id'' @ dq @ '':'' @ dq @ ''c1'' @ dq @ ''}]}''"

definition sample_loads :: decoder where
  "sample_loads s =
     (if s = text_array then Inr (PList [])
      else if s = text_bogus then
        Inr (PDict [(''answer'', PStr ''Paris.''),
                     (''sources'', PList [PDict [(''chunk_id'', PStr ''bogus_id'')]])])
      else if s = text_mixed then
        Inr (PDict [(''answer'', PStr ''Paris.''),
                     (''sources'', PList [PDict [(''document_name'', PStr ''b.txt''),
                                                 (''chunk_id'', PStr ''c1'')],
                                          PDict [(''chunk_id'', PStr ''bogus_id'')]])])
      else if s = text_refusal_cited then
        Inr (PDict [(''answer'', PStr NO_INFO_RESPONSE),
                     (''sources'', PList [PDict [(''chunk_id'', PStr ''c1'')]])])
      else if s = text_deep then Inl RecursionError
      else Inl JSONDecodeError)"

text \<open>The retrieved chunk of the examples, and a client that returns a fixed completion.\<close>

definition chunk_c1 :: RetrievedChunk where
  "chunk_c1 =
     \<lparr>rc_document_name = ''a.txt'', rc_page_number = 1, rc_chunk_id = ''c1'',
      rc_text = ''Paris is the capital of France.'', rc_score = Some (1 / 4),
      rc_is_section = True\<rparr>"

definition fixed_client :: "string \<Rightarrow> client" where
  "fixed_client completion user_message = Inr completion"

section \<open>Configuration\<close>

text \<open>
  The fields of \<open>Settings\<close> (config/settings.py) that the modelled code reads, with their
  defaults. The class declares no validator.
\<close>

record Settings =
  st_groq_api_key :: string
  st_chunk_size :: int
  st_chunk_overlap :: int
  st_top_k_results :: int

definition default_settings :: Settings where
  "default_settings =
     \<lparr>st_groq_api_key = [], st_chunk_size = 500, st_chunk_overlap = 50, st_top_k_results = 5\<rparr>"

text \<open>\<open>x or y\<close> for an optional integer \<open>x\<close>: \<open>None\<close> and 0 are false.\<close>

definition int_or :: "int option \<Rightarrow> int \<Rightarrow> int" where
  "int_or x y = (case x of None \<Rightarrow> y | Some v \<Rightarrow> if v = 0 then y else v)"

section \<open>The retrieval adapter: \<open>VectorStore.search\<close> and \<open>Retriever.retrieve\<close>\<close>

text \<open>
  The metadata dict stored with a chunk; a field is \<open>None\<close> when the dict has no such key.
\<close>

record Metadata =
  md_document_name :: "string option"
  md_page_number :: "int option"
  md_is_section :: "bool option"

text \<open>
  What \<open>collection.query\<close> returns for the one query embedding: the lists under \<open>ids\<close>,
  \<open>documents\<close> and \<open>metadatas\<close>, and the list under \<open>distances\<close> if the result has one. An
  entry of \<open>metadatas\<close> is a dict, or \<open>None\<close> for a chunk stored without metadata.
\<close>

record QueryResult =
  qr_ids :: "string list list"
  qr_documents :: "string list list"
  qr_metadatas :: "Metadata option list list"
  qr_distances :: "real list list option"

text \<open>
  A result dict as \<open>retrieve\<close> reads it with \<open>get\<close>: a field is \<open>None\<close> when the dict has no
  such key. Under a present key the metadata is a dict or \<open>None\<close>, and the distance is a
  number or \<open>None\<close>: \<open>search\<close> binds \<open>distance\<close> to \<open>None\<close> when the query result has no
  distances.
\<close>

record SearchResult =
  res_chunk_id :: "string option"
  res_text :: "string option"
  res_metadata :: "Metadata option option"
  res_distance :: "real option option"

text \<open>\<open>xs[i]\<close> for \<open>i\<close> from \<open>range(...)\<close>: an \<open>IndexError\<close> beyond the end.\<close>

definition item :: "'a list \<Rightarrow> nat \<Rightarrow> error + 'a" where
  "item xs i = (if i < length xs then Inr (xs ! i) else Inl IndexError)"

text \<open>
  \<open>results["distances"][0][i] if results.get("distances") else None\<close>: a missing or empty
  list of distances is false.
\<close>

definition distance_at :: "QueryResult \<Rightarrow> nat \<Rightarrow> error + real option" where
  "distance_at results i =
     (case qr_distances results of
        None \<Rightarrow> Inr None
      | Some [] \<Rightarrow> Inr None
      | Some (ds # dss) \<Rightarrow> (case item ds i of Inl e \<Rightarrow> Inl e | Inr d \<Rightarrow> Inr (Some d)))"

text \<open>One iteration of the formatting loop of \<open>search\<close>, at index \<open>i\<close>.\<close>

definition format_result :: "QueryResult \<Rightarrow> nat \<Rightarrow> error + SearchResult" where
  "format_result results i =
     (case item (qr_ids results) 0 of
        Inl e \<Rightarrow> Inl e
      | Inr ids \<Rightarrow>
     (case item ids i of
        Inl e \<Rightarrow> Inl e
      | Inr chunk_id \<Rightarrow>
     (case item (qr_documents results) 0 of
        Inl e \<Rightarrow> Inl e
      | Inr docs \<Rightarrow>
     (case item docs i of
        Inl e \<Rightarrow> Inl e
      | Inr doc \<Rightarrow>
     (case item (qr_metadatas results) 0 of
        Inl e \<Rightarrow> Inl e
      | Inr mds \<Rightarrow>
     (case item mds i of
        Inl e \<Rightarrow> Inl e
      | Inr md \<Rightarrow>
     (case distance_at results i of
        Inl e \<Rightarrow> Inl e
      | Inr d \<Rightarrow>
          Inr \<lparr>res_chunk_id = Some chunk_id, res_text = Some doc,
               res_metadata = Some md, res_distance = Some d\<rparr>)))))))"

fun format_results :: "QueryResult \<Rightarrow> nat list \<Rightarrow> error + SearchResult list" where
  "format_results results [] = Inr []"
| "format_results results (i # is) =
     (case format_result results i of
        Inl e \<Rightarrow> Inl e
      | Inr r \<Rightarrow> (case format_results results is of Inl e \<Rightarrow> Inl e | Inr rs \<Rightarrow> Inr (r # rs)))"

text \<open>
  \<open>VectorStore.search\<close>. \<open>query_index\<close> is the external index: the embedding of the query
  and \<open>collection.query\<close>, from the query text, the number of results and the document
  filter (\<open>None\<close> for no \<open>where\<close> clause) to the query result, or to the exception raised.
\<close>

type_synonym index = "string \<Rightarrow> int \<Rightarrow> string option \<Rightarrow> error + QueryResult"

definition search ::
  "index \<Rightarrow> Settings \<Rightarrow> string \<Rightarrow> int option \<Rightarrow> string option \<Rightarrow> error + SearchResult list" where
  "search query_index settings query top_k filter_doc =
     (let k = int_or top_k (st_top_k_results settings);
          where_filter = (case filter_doc of None \<Rightarrow> None
                          | Some d \<Rightarrow> if d = [] then None else Some d)
      in (case query_index query k where_filter of
            Inl e \<Rightarrow> Inl e
          | Inr results \<Rightarrow>
              (case qr_ids results of
                 [] \<Rightarrow> Inr []
               | ids # rest \<Rightarrow>
                   if ids = [] then Inr [] else format_results results [0..<length ids])))"

text \<open>
  The body of the loop of \<open>retrieve\<close>: one result dict to one \<open>RetrievedChunk\<close>.
  \<open>get_metadata\<close> is \<open>result.get("metadata", {})\<close> followed by the first \<open>metadata.get\<close>, which
  raises an \<open>AttributeError\<close> when the value under the key is \<open>None\<close>.
\<close>

definition empty_metadata :: Metadata where
  "empty_metadata = \<lparr>md_document_name = None, md_page_number = None, md_is_section = None\<rparr>"

definition get_metadata :: "SearchResult \<Rightarrow> error + Metadata" where
  "get_metadata result =
     (case res_metadata result of
        None \<Rightarrow> Inr empty_metadata
      | Some None \<Rightarrow> Inl AttributeError
      | Some (Some m) \<Rightarrow> Inr m)"

definition to_retrieved :: "SearchResult \<Rightarrow> error + RetrievedChunk" where
  "to_retrieved result =
     (case get_metadata result of
        Inl e \<Rightarrow> Inl e
      | Inr metadata \<Rightarrow>
          Inr \<lparr>rc_document_name =
                 (case md_document_name metadata of None \<Rightarrow> ''unknown'' | Some n \<Rightarrow> n),
               rc_page_number = (case md_page_number metadata of None \<Rightarrow> 0 | Some p \<Rightarrow> p),
               rc_chunk_id = (case res_chunk_id result of None \<Rightarrow> ''unknown'' | Some c \<Rightarrow> c),
               rc_text = (case res_text result of None \<Rightarrow> [] | Some t \<Rightarrow> t),
               rc_score = (case res_distance result of None \<Rightarrow> Some 1 | Some d \<Rightarrow> d),
               rc_is_section =
                 (case md_is_section metadata of None \<Rightarrow> False | Some b \<Rightarrow> b)\<rparr>)"



section \<open>The chunker: \<open>TextChunker\<close>\<close>

text \<open>\<open>DocumentPage\<close> (document_loader.py) and \<open>TextChunk\<close> (chunker.py).\<close>

record DocumentPage =
  dp_document_name :: string
  dp_page_number :: int
  dp_text :: string
  dp_is_section :: bool

record TextChunk =
  tc_document_name :: string
  tc_page_number :: int
  tc_chunk_id :: string
  tc_text :: string
  tc_is_section :: bool

record TextChunker =
  chunk_size :: int
  chunk_overlap :: int

text \<open>
  \<open>__init__\<close>: an argument that is \<open>None\<close> or 0 is replaced by the value of the settings;
  nothing else is examined. (The two values are then written to the log, which formats
  them: they are taken to be \<open>within_digit_limit\<close>.)
\<close>

definition TextChunker_init :: "Settings \<Rightarrow> int option \<Rightarrow> int option \<Rightarrow> TextChunker" where
  "TextChunker_init settings size_arg overlap_arg =
     \<lparr>chunk_size = int_or size_arg (st_chunk_size settings),
      chunk_overlap = int_or overlap_arg (st_chunk_overlap settings)\<rparr>"

subsection \<open>Slices, indexing and \<open>rfind\<close>\<close>

text \<open>
  A slice bound of Python, brought into \<open>0..n\<close>: a negative bound counts from the end.
\<close>

definition slice_bound :: "nat \<Rightarrow> int \<Rightarrow> nat" where
  "slice_bound n i = (if i < 0 then nat (i + int n) else min (nat i) n)"

text \<open>\<open>xs[i:j]\<close>.\<close>

definition slice :: "'a list \<Rightarrow> int \<Rightarrow> int \<Rightarrow> 'a list" where
  "slice xs i j =
     (let a = slice_bound (length xs) i; b = slice_bound (length xs) j
      in take (b - a) (drop a xs))"

text \<open>\<open>xs[i]\<close> for an integer \<open>i\<close>: \<open>None\<close> stands for the \<open>IndexError\<close>.\<close>

definition py_index :: "'a list \<Rightarrow> int \<Rightarrow> 'a option" where
  "py_index xs i =
     (let n = int (length xs)
      in if 0 \<le> i \<and> i < n then Some (xs ! nat i)
         else if - n \<le> i \<and> i < 0 then Some (xs ! nat (i + n))
         else None)"

text \<open>
  \<open>s.rfind(sub, start, end)\<close>: the highest index \<open>i\<close> with \<open>s[i:i+len(sub)] == sub\<close>,
  \<open>start \<le> i\<close> and \<open>i + len(sub) \<le> end\<close>, after \<open>end\<close> is cut to the length and negative
  bounds are counted from the end; \<open>-1\<close> when there is none.
\<close>

definition rfind :: "string \<Rightarrow> string \<Rightarrow> int \<Rightarrow> int \<Rightarrow> int" where
  "rfind s sub start end =
     (let n = int (length s);
          e = (if end > n then n else if end < 0 then max 0 (end + n) else end);
          b = (if start < 0 then max 0 (start + n) else start)
      in (case filter (\<lambda>i. b \<le> int i \<and> int i + int (length sub) \<le> e
                            \<and> take (length sub) (drop i s) = sub)
                 (rev [0..<Suc (length s)]) of
            [] \<Rightarrow> - 1
          | i # _ \<Rightarrow> int i))"

subsection \<open>\<open>_find_boundary\<close>\<close>

definition sentence_ends :: "string list" where
  "sentence_ends =
     [''. '', ''! '', ''? '', [CHR ''.'', CHR 0x0A], [CHR ''!'', CHR 0x0A], [CHR ''?'', CHR 0x0A]]"

text \<open>One iteration of the loop over \<open>sentence_ends\<close>, from \<open>best_break\<close> to its new value.\<close>

definition try_marker :: "string \<Rightarrow> int \<Rightarrow> int \<Rightarrow> string \<Rightarrow> int option \<Rightarrow> int option" where
  "try_marker search_text search_start position end_marker best_break =
     (let idx = rfind search_text end_marker 0 (position - search_start + 50)
      in if idx \<noteq> - 1 then
           (let actual_pos = search_start + idx + int (length end_marker)
            in (case best_break of
                  None \<Rightarrow> Some actual_pos
                | Some b \<Rightarrow> if actual_pos > b then Some actual_pos else Some b))
         else best_break)"

text \<open>
  The fallback loop \<open>while word_end < len(text) and text[word_end] not in " \n\t"\<close>.
\<close>

function word_end_loop :: "string \<Rightarrow> int \<Rightarrow> error + int" where
  "word_end_loop text word_end =
     (if word_end < int (length text) then
        (case py_index text word_end of
           None \<Rightarrow> Inl IndexError
         | Some c \<Rightarrow>
             if c \<noteq> CHR '' '' \<and> c \<noteq> CHR 0x0A \<and> c \<noteq> CHR 0x09
             then word_end_loop text (word_end + 1)
             else Inr word_end)
      else Inr word_end)"
  by pat_completeness auto
termination
  by (relation "measure (\<lambda>(text, word_end). nat (int (length text) - word_end))") auto

declare word_end_loop.simps [simp del]

definition find_boundary :: "string \<Rightarrow> int \<Rightarrow> error + int" where
  "find_boundary text position =
     (let search_start = max 0 (position - 50);
          search_end = min (int (length text)) (position + 50);
          search_text = slice text search_start search_end;
          best_break = fold (try_marker search_text search_start position) sentence_ends None
      in (case best_break of
            None \<Rightarrow> word_end_loop text position
          | Some b \<Rightarrow> if b \<noteq> 0 then Inr b else word_end_loop text position))"

subsection \<open>\<open>_generate_chunk_id\<close>\<close>

text \<open>
  \<open>md5\<close> is \<open>hashlib.md5(base.encode()).digest()\<close>, the sixteen bytes read as one 128-bit
  number with the first byte on top; \<open>hexdigest\<close> prints it as 32 lower-case hexadecimal
  digits.
\<close>

definition hex_char :: "nat \<Rightarrow> char" where
  "hex_char d = ''0123456789abcdef'' ! d"

definition hexdigest :: "128 word \<Rightarrow> string" where
  "hexdigest w = map (\<lambda>i. hex_char (unat (drop_bit (4 * i) w) mod 16)) (rev [0..<32])"

definition generate_chunk_id :: "(string \<Rightarrow> 128 word) \<Rightarrow> string \<Rightarrow> int \<Rightarrow> nat \<Rightarrow> string" where
  "generate_chunk_id md5 document_name page_number chunk_index =
     (let base = document_name @ ''_page'' @ str_int page_number
                   @ ''_chunk'' @ str_nat chunk_index;
          hash_suffix = take 8 (hexdigest (md5 base))
      in document_name @ ''_p'' @ str_int page_number @ ''_c'' @ str_nat chunk_index
           @ ''_'' @ hash_suffix)"

subsection \<open>\<open>_chunk_text\<close> and \<open>chunk_pages\<close>\<close>

text \<open>
  The chunk that \<open>_chunk_text\<close> builds for its page from a chunk index and a text.
\<close>

definition new_chunk ::
  "(string \<Rightarrow> 128 word) \<Rightarrow> string \<Rightarrow> int \<Rightarrow> bool \<Rightarrow> nat \<Rightarrow> string \<Rightarrow> TextChunk" where
  "new_chunk md5 document_name page_number is_section chunk_index chunk_text =
     \<lparr>tc_document_name = document_name, tc_page_number = page_number,
      tc_chunk_id = generate_chunk_id md5 document_name page_number chunk_index,
      tc_text = chunk_text, tc_is_section = is_section\<rparr>"

text \<open>
  The end of the window that starts at \<open>start\<close>: \<open>start + chunk_size\<close>, moved to the
  boundary when that end lies before the end of the text and the boundary lies after
  \<open>start\<close>.
\<close>

definition window_end :: "TextChunker \<Rightarrow> string \<Rightarrow> int \<Rightarrow> error + int" where
  "window_end self text start =
     (let end = start + chunk_size self
      in if end < int (length text) then
           (case find_boundary text end of
              Inl e \<Rightarrow> Inl e
            | Inr boundary \<Rightarrow> Inr (if boundary > start then boundary else end))
         else Inr end)"

text \<open>
  The \<open>while\<close> loop of \<open>_chunk_text\<close>, from the state \<open>(start, chunk_index, chunks)\<close>;
  \<open>mk\<close> builds the chunk of the page. The loop need not end: \<open>None\<close> is a run that never
  returns (the source then appends chunks until the memory is exhausted).
\<close>

partial_function (option) chunk_loop ::
  "(nat \<Rightarrow> string \<Rightarrow> TextChunk) \<Rightarrow> TextChunker \<Rightarrow> string \<Rightarrow> int \<Rightarrow> nat \<Rightarrow> TextChunk list
     \<Rightarrow> (error + TextChunk list) option" where
  "chunk_loop mk self text start chunk_index chunks =
     (if start < int (length text) then
        (case window_end self text start of
           Inl e \<Rightarrow> Some (Inl e)
         | Inr end \<Rightarrow>
             (let chunk_text = strip (slice text start end);
                  chunks' = (if chunk_text \<noteq> [] then chunks @ [mk chunk_index chunk_text]
                             else chunks);
                  chunk_index' = (if chunk_text \<noteq> [] then chunk_index + 1 else chunk_index);
                  start' = end - chunk_overlap self
              in if start' \<ge> int (length text) - 1 then Some (Inr chunks')
                 else chunk_loop mk self text start' chunk_index' chunks'))
      else Some (Inr chunks))"

definition chunk_text ::
  "(string \<Rightarrow> 128 word) \<Rightarrow> TextChunker \<Rightarrow> string \<Rightarrow> string \<Rightarrow> int \<Rightarrow> bool
     \<Rightarrow> (error + TextChunk list) option" where
  "chunk_text md5 self text document_name page_number is_section =
     (if text = [] \<or> strip text = [] then Some (Inr [])
      else
        (let text = strip text
         in if int (length text) \<le> chunk_size self
            then Some (Inr [new_chunk md5 document_name page_number is_section 0 text])
            else chunk_loop (new_chunk md5 document_name page_number is_section) self text 0 0 []))"

text \<open>\<open>chunk_pages\<close>: a page whose chunking does not return, or raises, ends the run.\<close>

fun chunk_pages ::
  "(string \<Rightarrow> 128 word) \<Rightarrow> TextChunker \<Rightarrow> DocumentPage list \<Rightarrow> (error + TextChunk list) option" where
  "chunk_pages md5 self [] = Some (Inr [])"
| "chunk_pages md5 self (page # pages) =
     (case chunk_text md5 self (dp_text page) (dp_document_name page) (dp_page_number page)
             (dp_is_section page) of
        None \<Rightarrow> None
      | Some (Inl e) \<Rightarrow> Some (Inl e)
      | Some (Inr chunks) \<Rightarrow>
          (case chunk_pages md5 self pages of
             None \<Rightarrow> None
           | Some (Inl e) \<Rightarrow> Some (Inl e)
           | Some (Inr all_chunks) \<Rightarrow> Some (Inr (chunks @ all_chunks))))"

text \<open>
  The chunk operation: a chunker built from the given sizes, applied to the pages.
\<close>

definition chunk_document ::
  "(string \<Rightarrow> 128 word) \<Rightarrow> Settings \<Rightarrow> int option \<Rightarrow> int option \<Rightarrow> DocumentPage list
     \<Rightarrow> (error + TextChunk list) option" where
  "chunk_document md5 settings size_arg overlap_arg pages =
     chunk_pages md5 (TextChunker_init settings size_arg overlap_arg) pages"

section \<open>Data for concrete runs\<close>

text \<open>
  A finite part of \<open>hashlib.md5\<close>: the digests of the base strings of the runs below.
  \<open>sample_md5\<close> is used at these strings only.
\<close>

definition sample_md5 :: "string \<Rightarrow> 128 word" where
  "sample_md5 base =
     (if base = ''a.txt_page1_chunk0'' then 0x7aaf30b1d79a76d5281a3baa9d754e58
      else if base = ''a.txt_page2_chunk0'' then 0x192a44b607479a7da95090ba2bec839d
      else if base = ''a.txt_page1_chunk1'' then 0x0220adac2c59c1cfa08dd103ed1a5e78
      else 0)"

definition paris_text :: string where
  "paris_text = ''Paris is the capital of France. It is in Europe.''"

definition page_paris :: DocumentPage where
  "page_paris =
     \<lparr>dp_document_name = ''a.txt'', dp_page_number = 1, dp_text = paris_text,
      dp_is_section = False\<rparr>"

definition page_berlin :: DocumentPage where
  "page_berlin =
     \<lparr>dp_document_name = ''a.txt'', dp_page_number = 2,
      dp_text = '' Berlin. '', dp_is_section = False\<rparr>"

text \<open>A text of 70 characters without whitespace, and a text with one sentence end.\<close>

definition long_word :: string where
  "long_word = ''aaaaaaaaaaaaaaaaaaaaaaaaaaaaaaaaaaaaaaaaaaaaaaaaaaaaaaaaaaaaaaaaaaaaaa''"

definition short_sentence :: string where
  "short_sentence = ''a. bbbbbbbb''"



section \<open>Properties of the answer validator\<close>

subsection \<open>The lookup of retrieved chunk ids\<close>

lemma fold_section_map_dom:
  "dom (fold (\<lambda>chunk m. m(rc_chunk_id chunk \<mapsto> rc_is_section chunk)) cs m0) =
     dom m0 \<union> rc_chunk_id ` set cs"
  by (induction cs arbitrary: m0) auto

lemma chunk_section_map_dom: "dom (chunk_section_map cs) = rc_chunk_id ` set cs"
  by (simp add: chunk_section_map_def fold_section_map_dom)

lemma chunk_section_map_None: "chunk_section_map cs k = None \<longleftrightarrow> k \<notin> rc_chunk_id ` set cs"
  by (metis chunk_section_map_dom domIff)

lemma fold_section_map_last:
  "fold (\<lambda>chunk m. m(rc_chunk_id chunk \<mapsto> rc_is_section chunk)) cs m0 k =
     (case filter (\<lambda>c. rc_chunk_id c = k) cs of
        [] \<Rightarrow> m0 k
      | c # fs \<Rightarrow> Some (rc_is_section (last (c # fs))))"
proof (induction cs arbitrary: m0)
  case Nil
  show ?case by simp
next
  case (Cons c cs)
  let ?F = "\<lambda>chunk m. m(rc_chunk_id chunk \<mapsto> rc_is_section chunk)"
  let ?m1 = "m0(rc_chunk_id c \<mapsto> rc_is_section c)"
  have "fold ?F (c # cs) m0 k = fold ?F cs ?m1 k"
    by (simp del: fun_upd_apply)
  also have "\<dots> = (case filter (\<lambda>c. rc_chunk_id c = k) cs of
                      [] \<Rightarrow> ?m1 k
                    | c # fs \<Rightarrow> Some (rc_is_section (last (c # fs))))"
    by (rule Cons.IH)
  also have "\<dots> = (case filter (\<lambda>c. rc_chunk_id c = k) (c # cs) of
                      [] \<Rightarrow> m0 k
                    | c # fs \<Rightarrow> Some (rc_is_section (last (c # fs))))"
    by (cases "filter (\<lambda>c. rc_chunk_id c = k) cs") auto
  finally show ?case .
qed

text \<open>The flag the map holds for an id is that of the last retrieved chunk with the id.\<close>

lemma chunk_section_map_Some:
  assumes "chunk_section_map cs k = Some b"
  shows "filter (\<lambda>c. rc_chunk_id c = k) cs \<noteq> []
       \<and> b = rc_is_section (last (filter (\<lambda>c. rc_chunk_id c = k) cs))"
  using assms unfolding chunk_section_map_def fold_section_map_last
  by (cases "filter (\<lambda>c. rc_chunk_id c = k) cs") simp_all

subsection \<open>One source, and the loop\<close>

lemma in_valid_True: "in_valid cid m = Inr True \<Longrightarrow> \<exists>s. cid = PStr s \<and> m s \<noteq> None"
  by (cases cid) simp_all

lemma check_source_Some:
  assumes "check_source m source = Inr (Some ref)"
  shows "dict_get source ''chunk_id'' (PStr []) = Inr (PStr (sr_chunk_id ref))
       \<and> dict_get source ''document_name'' (PStr ''unknown'') = Inr (sr_document_name ref)
       \<and> dict_get source ''page'' (PInt 0) = Inr (sr_page ref)
       \<and> m (sr_chunk_id ref) = Some (sr_is_section ref)"
  using assms unfolding check_source_def
  by (auto split: sum.splits if_splits dest!: in_valid_True)

lemma check_source_None:
  assumes "check_source m source = Inr None"
      and "dict_get source ''chunk_id'' (PStr []) = Inr (PStr s)"
  shows "m s = None"
  using assms unfolding check_source_def
  by (auto split: sum.splits if_splits)

lemma check_source_valid:
  assumes "check_source m source = Inr r"
      and "dict_get source ''chunk_id'' (PStr []) = Inr (PStr s)"
      and "m s \<noteq> None"
  shows "\<exists>ref. r = Some ref"
  using assms check_source_None [of m source s] by (cases r) auto

lemma collect_sources_sound:
  assumes "collect_sources m items = Inr srcs" and "ref \<in> set srcs"
  shows "\<exists>source \<in> set items. check_source m source = Inr (Some ref)"
  using assms
proof (induction items arbitrary: srcs)
  case Nil
  then show ?case by simp
next
  case (Cons source rest)
  then show ?case
    by (auto split: sum.splits option.splits)
qed

lemma collect_sources_complete:
  assumes "collect_sources m items = Inr srcs" and "source \<in> set items"
  shows "\<exists>r. check_source m source = Inr r \<and> (\<forall>ref. r = Some ref \<longrightarrow> ref \<in> set srcs)"
  using assms
proof (induction items arbitrary: srcs)
  case Nil
  then show ?case by simp
next
  case (Cons a rest)
  then show ?case
    by (fastforce split: sum.splits option.splits)
qed

text \<open>The ids of the references, in order: the cited ids that are retrieved ids.\<close>

lemma collect_sources_ids:
  assumes "collect_sources m items = Inr srcs"
  shows "map (\<lambda>ref. PStr (sr_chunk_id ref)) srcs =
           filter (\<lambda>cid. \<exists>s. cid = PStr s \<and> m s \<noteq> None)
             (map (\<lambda>source. case dict_get source ''chunk_id'' (PStr []) of
                              Inr cid \<Rightarrow> cid | Inl e \<Rightarrow> PNone) items)"
  using assms
proof (induction items arbitrary: srcs)
  case Nil
  then show ?case by simp
next
  case (Cons source rest)
  from Cons.prems obtain r tl_srcs where
    r: "check_source m source = Inr r" and
    rest: "collect_sources m rest = Inr tl_srcs" and
    srcs: "srcs = (case r of None \<Rightarrow> tl_srcs | Some ref \<Rightarrow> ref # tl_srcs)"
    by (auto split: sum.splits)
  note ih = Cons.IH [OF rest]
  show ?case
  proof (cases r)
    case None
    with r obtain cid where cid: "dict_get source ''chunk_id'' (PStr []) = Inr cid"
      unfolding check_source_def by (auto split: sum.splits)
    have "\<not> (\<exists>s. cid = PStr s \<and> m s \<noteq> None)"
      using check_source_None [of m source] r None cid by auto
    with None srcs ih cid show ?thesis by simp
  next
    case (Some ref)
    with r check_source_Some [of m source ref]
    have "dict_get source ''chunk_id'' (PStr []) = Inr (PStr (sr_chunk_id ref))"
      and "m (sr_chunk_id ref) \<noteq> None" by auto
    with Some srcs ih show ?thesis by simp
  qed
qed

lemma validate_sources:
  assumes "validate parsed chunks = Inr resp"
  shows "\<exists>raw items. dict_get parsed ''answer'' (PStr NO_INFO_RESPONSE) = Inr (answer resp)
           \<and> dict_get parsed ''sources'' (PList []) = Inr raw \<and> py_iter raw = Inr items
           \<and> collect_sources (chunk_section_map chunks) items = Inr (sources resp)"
  using assms unfolding validate_def by (auto split: sum.splits)

text \<open>
  The body of the \<open>try\<close> block raises a \<open>JSONDecodeError\<close> only where \<open>json.loads\<close> does:
  the lookups and the loop raise an \<open>AttributeError\<close> or a \<open>TypeError\<close>.
\<close>

lemma dict_get_raises: "dict_get v k d = Inl e \<Longrightarrow> e = AttributeError"
  by (cases v) simp_all

lemma py_iter_raises: "py_iter v = Inl e \<Longrightarrow> e = TypeError"
  by (cases v) simp_all

lemma in_valid_raises: "in_valid cid m = Inl e \<Longrightarrow> e = TypeError"
  by (cases cid) simp_all

lemma check_source_raises:
  "check_source m source = Inl e \<Longrightarrow> e = AttributeError \<or> e = TypeError"
  unfolding check_source_def
  by (auto split: sum.splits if_splits dest: dict_get_raises in_valid_raises)

lemma collect_sources_raises:
  "collect_sources m items = Inl e \<Longrightarrow> e = AttributeError \<or> e = TypeError"
proof (induction items)
  case Nil
  then show ?case by simp
next
  case (Cons source items)
  show ?case
  proof (cases "check_source m source")
    case (Inl e')
    with Cons.prems have "e' = e" by simp
    with Inl check_source_raises show ?thesis by blast
  next
    case (Inr r)
    with Cons.prems have "collect_sources m items = Inl e" by (auto split: sum.splits)
    then show ?thesis by (rule Cons.IH)
  qed
qed

lemma validate_raises:
  "validate parsed chunks = Inl e \<Longrightarrow> e = AttributeError \<or> e = TypeError"
  unfolding validate_def
  by (auto split: sum.splits dest: dict_get_raises py_iter_raises collect_sources_raises)

lemma parse_response_decoded:
  assumes "loads (strip (extract_json_text response_text)) = Inr parsed"
  shows "parse_response loads response_text chunks = validate parsed chunks"
proof (cases "validate parsed chunks")
  case (Inl e)
  from validate_raises [OF this] have "e \<noteq> JSONDecodeError" by auto
  with assms Inl show ?thesis by (simp add: parse_response_def parse_body_def)
next
  case (Inr response)
  with assms show ?thesis by (simp add: parse_response_def parse_body_def)
qed

lemma parse_response_undecoded:
  assumes "loads (strip (extract_json_text response_text)) = Inl e"
  shows "parse_response loads response_text chunks =
           (if e = JSONDecodeError then Inr refusal else Inl e)"
  using assms by (simp add: parse_response_def parse_body_def)

lemma parse_response_cases:
  assumes "parse_response loads response_text chunks = Inr resp"
  shows "(loads (strip (extract_json_text response_text)) = Inl JSONDecodeError \<and> resp = refusal)
       \<or> (\<exists>parsed. loads (strip (extract_json_text response_text)) = Inr parsed
             \<and> validate parsed chunks = Inr resp)"
proof (cases "loads (strip (extract_json_text response_text))")
  case (Inl e)
  from parse_response_undecoded [where loads = loads and response_text = response_text, OF this]
    assms Inl
  show ?thesis by (auto split: if_splits)
next
  case (Inr parsed)
  from parse_response_decoded [where loads = loads and response_text = response_text, OF this]
    assms Inr
  show ?thesis by simp
qed

lemma small_within_digit_limit: "\<bar>i\<bar> < 1000 \<Longrightarrow> within_digit_limit i"
proof -
  assume small: "\<bar>i\<bar> < 1000"
  have "(1000::int) = 10 ^ 3" by simp
  also have "\<dots> \<le> 10 ^ 4300" by (rule power_increasing) simp_all
  finally have "(1000::int) \<le> 10 ^ 4300" .
  with small have "\<bar>i\<bar> < 10 ^ 4300" by (rule less_le_trans)
  then show ?thesis unfolding within_digit_limit_def .
qed

lemma generate_cases:
  assumes "generate loads self question chunks = (Inr resp, calls)"
  shows "(chunks = [] \<and> resp = refusal \<and> calls = [])
       \<or> (\<exists>call content. client self = Some call \<and> chunks \<noteq> []
             \<and> call (build_user_message question (format_context chunks)) = Inr content
             \<and> parse_response loads (strip content) chunks = Inr resp)"
  using assms unfolding generate_def
  by (auto simp: Let_def split: option.splits if_splits sum.splits)

section \<open>Properties of the chunker\<close>

subsection \<open>Decimal numbers\<close>

lemma digit_char_digit: "d < 10 \<Longrightarrow> digit_char d \<in> set ''0123456789''"
  unfolding digit_char_def by (rule nth_mem) simp

lemma digit_char_inj:
  assumes "d < 10" and "e < 10" and "digit_char d = digit_char e"
  shows "d = e"
proof -
  have "distinct ''0123456789''" by simp
  with assms show ?thesis
    unfolding digit_char_def by (simp add: nth_eq_iff_index_eq)
qed

lemma str_nat_digits: "set (str_nat n) \<subseteq> set ''0123456789''"
proof (induction n rule: str_nat.induct)
  case (1 n)
  show ?case
  proof (cases "n < 10")
    case True
    then show ?thesis
      using digit_char_digit [of n] by (subst str_nat.simps) simp
  next
    case False
    have "n mod 10 < 10" by simp
    from digit_char_digit [OF this] "1.IH" [OF False] False show ?thesis
      by (subst str_nat.simps) simp
  qed
qed

lemma str_nat_nonempty: "str_nat n \<noteq> []"
  by (subst str_nat.simps) simp

lemma str_nat_inj: "str_nat n = str_nat m \<Longrightarrow> n = m"
proof (induction n arbitrary: m rule: str_nat.induct)
  case (1 n)
  show ?case
  proof (cases "n < 10")
    case small_n: True
    show ?thesis
    proof (cases "m < 10")
      case True
      with small_n "1.prems" have "digit_char n = digit_char m"
        by (simp add: str_nat.simps [of n] str_nat.simps [of m])
      with small_n True show ?thesis by (rule digit_char_inj)
    next
      case False
      with small_n "1.prems" have "[digit_char n] = str_nat (m div 10) @ [digit_char (m mod 10)]"
        by (simp add: str_nat.simps [of n] str_nat.simps [of m])
      then have "str_nat (m div 10) = []" by simp
      with str_nat_nonempty show ?thesis by blast
    qed
  next
    case big_n: False
    show ?thesis
    proof (cases "m < 10")
      case True
      with big_n "1.prems" have "str_nat (n div 10) @ [digit_char (n mod 10)] = [digit_char m]"
        by (simp add: str_nat.simps [of n] str_nat.simps [of m])
      then have "str_nat (n div 10) = []" by simp
      with str_nat_nonempty show ?thesis by blast
    next
      case False
      with big_n "1.prems"
      have "str_nat (n div 10) @ [digit_char (n mod 10)] =
            str_nat (m div 10) @ [digit_char (m mod 10)]"
        by (simp add: str_nat.simps [of n] str_nat.simps [of m])
      then have front: "str_nat (n div 10) = str_nat (m div 10)"
        and last: "digit_char (n mod 10) = digit_char (m mod 10)" by simp_all
      from "1.IH" [OF big_n front] have "n div 10 = m div 10" .
      moreover have "n mod 10 = m mod 10"
        by (rule digit_char_inj [OF _ _ last]) simp_all
      ultimately show ?thesis by (metis div_mult_mod_eq)
    qed
  qed
qed

text \<open>
  A string that ends in a character outside \<open>D\<close> followed by characters of \<open>D\<close> splits
  there in one way only.
\<close>

lemma takeWhile_prefix:
  "(\<forall>x \<in> set xs. P x) \<Longrightarrow> \<not> P a \<Longrightarrow> takeWhile P (xs @ a # ys) = xs"
  by (induction xs) simp_all

lemma digits_suffix_unique:
  assumes eq: "xs @ a # ds = ys @ b # es"
      and ds: "set ds \<subseteq> D" and es: "set es \<subseteq> D"
      and a: "a \<notin> D" and b: "b \<notin> D"
  shows "xs = ys \<and> a = b \<and> ds = es"
proof -
  from eq have "rev (xs @ a # ds) = rev (ys @ b # es)" by simp
  then have r: "rev ds @ a # rev xs = rev es @ b # rev ys" by simp
  have "takeWhile (\<lambda>c. c \<in> D) (rev ds @ a # rev xs) = rev ds"
    using ds a by (intro takeWhile_prefix) auto
  moreover have "takeWhile (\<lambda>c. c \<in> D) (rev es @ b # rev ys) = rev es"
    using es b by (intro takeWhile_prefix) auto
  ultimately have "rev ds = rev es" using r by simp
  then have "ds = es" by simp
  with eq show ?thesis by simp
qed

subsection \<open>Chunk ids\<close>

lemma length_hexdigest: "length (hexdigest w) = 32"
  by (simp add: hexdigest_def)

lemma str_int_cases:
  obtains (nonneg) "0 \<le> p" "str_int p = str_nat (nat p)"
        | (neg) "p < 0" "str_int p = CHR ''-'' # str_nat (nat (- p))"
  by (cases "p < 0") (simp_all add: str_int_def)

text \<open>The id determines the document name, the page number and the chunk index.\<close>

lemma generate_chunk_id_inj:
  assumes "generate_chunk_id md5 d1 p1 i1 = generate_chunk_id md5 d2 p2 i2"
  shows "d1 = d2 \<and> p1 = p2 \<and> i1 = i2"
proof -
  let ?D = "set ''0123456789''"
  define h1 where "h1 = CHR ''_'' # take 8 (hexdigest (md5 (d1 @ ''_page'' @ str_int p1
                     @ ''_chunk'' @ str_nat i1)))"
  define h2 where "h2 = CHR ''_'' # take 8 (hexdigest (md5 (d2 @ ''_page'' @ str_int p2
                     @ ''_chunk'' @ str_nat i2)))"
  define x1 where "x1 = d1 @ ''_p'' @ str_int p1 @ ''_c'' @ str_nat i1"
  define x2 where "x2 = d2 @ ''_p'' @ str_int p2 @ ''_c'' @ str_nat i2"
  have len: "length h1 = length h2"
    by (simp add: h1_def h2_def length_hexdigest)
  from assms have "x1 @ h1 = x2 @ h2"
    by (simp add: generate_chunk_id_def h1_def h2_def x1_def x2_def Let_def)
  with len have "x1 = x2" by simp
  then have "d1 @ ''_p'' @ str_int p1 @ ''_c'' @ str_nat i1 =
             d2 @ ''_p'' @ str_int p2 @ ''_c'' @ str_nat i2"
    by (simp only: x1_def x2_def)
  then have "(d1 @ ''_p'' @ str_int p1 @ ''_'') @ CHR ''c'' # str_nat i1 =
             (d2 @ ''_p'' @ str_int p2 @ ''_'') @ CHR ''c'' # str_nat i2"
    by simp
  from digits_suffix_unique [OF this str_nat_digits str_nat_digits]
  have front: "d1 @ ''_p'' @ str_int p1 @ ''_'' = d2 @ ''_p'' @ str_int p2 @ ''_''"
    and index: "str_nat i1 = str_nat i2" by simp_all
  from index have i: "i1 = i2" by (rule str_nat_inj)
  from front have "(d1 @ ''_p'' @ str_int p1) @ ''_'' = (d2 @ ''_p'' @ str_int p2) @ ''_''"
    by simp
  then have page: "d1 @ ''_p'' @ str_int p1 = d2 @ ''_p'' @ str_int p2"
    by (simp only: append_same_eq)
  have "d1 = d2 \<and> p1 = p2"
  proof (cases p1 rule: str_int_cases)
    case nonneg1: nonneg
    show ?thesis
    proof (cases p2 rule: str_int_cases)
      case nonneg
      with nonneg1 page
      have "(d1 @ ''_'') @ CHR ''p'' # str_nat (nat p1) = (d2 @ ''_'') @ CHR ''p'' # str_nat (nat p2)"
        by simp
      from digits_suffix_unique [OF this str_nat_digits str_nat_digits]
      have "d1 = d2" and "str_nat (nat p1) = str_nat (nat p2)" by simp_all
      with nonneg1 nonneg str_nat_inj [of "nat p1" "nat p2"] show ?thesis by simp
    next
      case neg
      with nonneg1 page
      have "(d1 @ ''_'') @ CHR ''p'' # str_nat (nat p1) =
            (d2 @ ''_p'') @ CHR ''-'' # str_nat (nat (- p2))"
        by simp
      from digits_suffix_unique [OF this str_nat_digits str_nat_digits]
      show ?thesis by simp
    qed
  next
    case neg1: neg
    show ?thesis
    proof (cases p2 rule: str_int_cases)
      case nonneg
      with neg1 page
      have "(d1 @ ''_p'') @ CHR ''-'' # str_nat (nat (- p1)) =
            (d2 @ ''_'') @ CHR ''p'' # str_nat (nat p2)"
        by simp
      from digits_suffix_unique [OF this str_nat_digits str_nat_digits]
      show ?thesis by simp
    next
      case neg
      with neg1 page
      have "(d1 @ ''_p'') @ CHR ''-'' # str_nat (nat (- p1)) =
            (d2 @ ''_p'') @ CHR ''-'' # str_nat (nat (- p2))"
        by simp
      from digits_suffix_unique [OF this str_nat_digits str_nat_digits]
      have "d1 = d2" and "str_nat (nat (- p1)) = str_nat (nat (- p2))" by simp_all
      with neg1 neg str_nat_inj [of "nat (- p1)" "nat (- p2)"] show ?thesis by simp
    qed
  qed
  with i show ?thesis by simp
qed

subsection \<open>One iteration of the chunking loop\<close>

lemma chunk_loop_exit:
  "\<not> start < int (length text) \<Longrightarrow> chunk_loop mk self text start chunk_index chunks = Some (Inr chunks)"
  by (subst chunk_loop.simps) simp

lemma chunk_loop_error:
  "start < int (length text) \<Longrightarrow> window_end self text start = Inl e
     \<Longrightarrow> chunk_loop mk self text start chunk_index chunks = Some (Inl e)"
  by (subst chunk_loop.simps) simp

lemma chunk_loop_last:
  assumes "start < int (length text)" and "window_end self text start = Inr end"
      and "int (length text) - 1 \<le> end - chunk_overlap self"
  shows "chunk_loop mk self text start chunk_index chunks =
           Some (Inr (if strip (slice text start end) \<noteq> []
                      then chunks @ [mk chunk_index (strip (slice text start end))]
                      else chunks))"
  using assms by (subst chunk_loop.simps) (simp add: Let_def)

lemma chunk_loop_next:
  assumes "start < int (length text)" and "window_end self text start = Inr end"
      and "\<not> int (length text) - 1 \<le> end - chunk_overlap self"
  shows "chunk_loop mk self text start chunk_index chunks =
           chunk_loop mk self text (end - chunk_overlap self)
             (if strip (slice text start end) \<noteq> [] then chunk_index + 1 else chunk_index)
             (if strip (slice text start end) \<noteq> []
              then chunks @ [mk chunk_index (strip (slice text start end))]
              else chunks)"
  using assms by (subst chunk_loop.simps) (simp add: Let_def)

subsection \<open>The chunks of one page and of a run\<close>

text \<open>
  What the loop returns is what it was given, followed by chunks with non-empty texts
  and consecutive indices.
\<close>

lemma chunk_loop_result:
  assumes "chunk_loop mk self tx start chunk_index chunks = Some (Inr out)"
  shows "\<exists>txts. out = chunks @ map2 mk [chunk_index..<chunk_index + length txts] txts
           \<and> [] \<notin> set txts"
proof -
  let ?P = "\<lambda>(m :: nat \<Rightarrow> string \<Rightarrow> TextChunk) (slf :: TextChunker) (tx :: string) (st :: int)
              (ix :: nat) (cs :: TextChunk list) (r :: error + TextChunk list).
              \<forall>out. r = Inr out \<longrightarrow>
                (\<exists>txts. out = cs @ map2 m [ix..<ix + length txts] txts \<and> [] \<notin> set txts)"
  have "?P mk self tx start chunk_index chunks (Inr out)"
  proof (rule chunk_loop.raw_induct [where P = ?P, OF _ assms])
    fix lp m slf tx st ix cs r
    assume IH: "\<And>m slf tx st ix cs r. lp m slf tx st ix cs = Some r \<Longrightarrow> ?P m slf tx st ix cs r"
    assume body:
      "(if st < int (length tx)
        then case window_end slf tx st of
               Inl e \<Rightarrow> Some (Inl e)
             | Inr end \<Rightarrow>
                 let chunk_text = strip (slice tx st end);
                     chunks' = if chunk_text \<noteq> [] then cs @ [m ix chunk_text] else cs;
                     chunk_index' = if chunk_text \<noteq> [] then ix + 1 else ix;
                     start' = end - chunk_overlap slf
                 in if int (length tx) - 1 \<le> start' then Some (Inr chunks')
                    else lp m slf tx start' chunk_index' chunks'
        else Some (Inr cs)) = Some r"
    show "?P m slf tx st ix cs r"
    proof (intro allI impI)
      fix out
      assume r: "r = Inr out"
      show "\<exists>txts. out = cs @ map2 m [ix..<ix + length txts] txts \<and> [] \<notin> set txts"
      proof (cases "st < int (length tx)")
        case False
        with body r have "out = cs" by simp
        then have "out = cs @ map2 m [ix..<ix + length ([]::string list)] []
                     \<and> [] \<notin> set ([]::string list)" by simp
        then show ?thesis by blast
      next
        case True
        with body r obtain "end" where w: "window_end slf tx st = Inr end"
          by (cases "window_end slf tx st") auto
        let ?t = "strip (slice tx st end)"
        let ?chunks' = "if ?t \<noteq> [] then cs @ [m ix ?t] else cs"
        let ?index' = "if ?t \<noteq> [] then ix + 1 else ix"
        have "\<exists>txts. out = ?chunks' @ map2 m [?index'..<?index' + length txts] txts
                \<and> [] \<notin> set txts"
        proof (cases "int (length tx) - 1 \<le> end - chunk_overlap slf")
          case True
          with body \<open>st < int (length tx)\<close> w r have "out = ?chunks'"
            by (simp add: Let_def)
          then have "out = ?chunks' @ map2 m [?index'..<?index' + length ([]::string list)] []
                       \<and> [] \<notin> set ([]::string list)" by simp
          then show ?thesis by blast
        next
          case False
          with body \<open>st < int (length tx)\<close> w r
          have "lp m slf tx (end - chunk_overlap slf) ?index' ?chunks' = Some (Inr out)"
            by (simp add: Let_def)
          from IH [OF this] show ?thesis by blast
        qed
        then obtain txts where
          out: "out = ?chunks' @ map2 m [?index'..<?index' + length txts] txts" and
          nonempty: "[] \<notin> set txts" by blast
        show ?thesis
        proof (cases "?t = []")
          case True
          with out nonempty show ?thesis by auto
        next
          case False
          have "[ix..<ix + length (?t # txts)] = ix # [ix + 1..<ix + 1 + length txts]"
            using upt_conv_Cons [of ix "ix + length (?t # txts)"] by (simp del: upt_Suc)
          with False out have "out = cs @ map2 m [ix..<ix + length (?t # txts)] (?t # txts)"
            by (simp del: upt_Suc)
          moreover from False nonempty have "[] \<notin> set (?t # txts)" by auto
          ultimately show ?thesis by blast
        qed
      qed
    qed
  qed
  then show ?thesis by blast
qed

text \<open>
  The chunks of one page: the name, page number and flag of the page, and ids made from
  that name, that page number and the indices 0, 1, 2, ... in order.
\<close>

lemma chunk_text_result:
  assumes "chunk_text md5 self text document_name page_number is_section = Some (Inr out)"
  shows "\<exists>txts. out = map2 (new_chunk md5 document_name page_number is_section)
                        [0..<length txts] txts \<and> [] \<notin> set txts"
proof (cases "strip text = []")
  case True
  with assms have "out = []" by (auto simp: chunk_text_def)
  then have "out = map2 (new_chunk md5 document_name page_number is_section)
                     [0..<length ([]::string list)] [] \<and> [] \<notin> set ([]::string list)"
    by simp
  then show ?thesis by blast
next
  case False
  then have nonblank: "\<not> (text = [] \<or> strip text = [])" by (auto simp: strip_def)
  show ?thesis
  proof (cases "int (length (strip text)) \<le> chunk_size self")
    case True
    with assms nonblank
    have "out = [new_chunk md5 document_name page_number is_section 0 (strip text)]"
      by (simp add: chunk_text_def Let_def)
    then have "out = map2 (new_chunk md5 document_name page_number is_section)
                       [0..<length [strip text]] [strip text] \<and> [] \<notin> set [strip text]"
      using False by simp
    then show ?thesis by blast
  next
    case False
    with assms nonblank
    have "chunk_loop (new_chunk md5 document_name page_number is_section) self (strip text)
            0 0 [] = Some (Inr out)"
      by (simp add: chunk_text_def Let_def)
    from chunk_loop_result [OF this] show ?thesis by simp
  qed
qed

lemma chunk_text_ids:
  assumes "chunk_text md5 self text document_name page_number is_section = Some (Inr out)"
  shows "map tc_chunk_id out =
           map (generate_chunk_id md5 document_name page_number) [0..<length out]"
proof -
  from chunk_text_result [OF assms] obtain txts where
    out: "out = map2 (new_chunk md5 document_name page_number is_section) [0..<length txts] txts"
    by blast
  have "map tc_chunk_id (map2 (new_chunk md5 document_name page_number is_section) is txts) =
        map (generate_chunk_id md5 document_name page_number) is"
    if "length is = length txts" for "is" :: "nat list" and txts
    using that by (induction "is" txts rule: list_induct2) (simp_all add: new_chunk_def)
  from this [of "[0..<length txts]" txts] out show ?thesis by simp
qed

lemma chunk_text_blank:
  "strip text = [] \<Longrightarrow>
     chunk_text md5 self text document_name page_number is_section = Some (Inr [])"
  by (simp add: chunk_text_def)

lemma chunk_text_distinct:
  assumes "chunk_text md5 self text document_name page_number is_section = Some (Inr out)"
  shows "distinct (map tc_chunk_id out)"
proof -
  have "inj_on (generate_chunk_id md5 document_name page_number) (set [0..<length out])"
    by (rule inj_onI) (use generate_chunk_id_inj in blast)
  then show ?thesis
    by (simp add: chunk_text_ids [OF assms] distinct_map)
qed

text \<open>Every chunk of a run carries an id made for a page of the run that is not blank.\<close>

lemma chunk_pages_ids:
  assumes "chunk_pages md5 self pages = Some (Inr out)" and "c \<in> set out"
  shows "\<exists>page \<in> set pages. \<exists>i. strip (dp_text page) \<noteq> []
           \<and> tc_chunk_id c =
               generate_chunk_id md5 (dp_document_name page) (dp_page_number page) i"
  using assms
proof (induction pages arbitrary: out)
  case Nil
  then show ?case by simp
next
  case (Cons page pages)
  from Cons.prems(1) obtain chunks all_chunks where
    first: "chunk_text md5 self (dp_text page) (dp_document_name page) (dp_page_number page)
              (dp_is_section page) = Some (Inr chunks)" and
    rest: "chunk_pages md5 self pages = Some (Inr all_chunks)" and
    out: "out = chunks @ all_chunks"
    by (auto split: option.splits sum.splits)
  from Cons.prems(2) out consider "c \<in> set chunks" | "c \<in> set all_chunks" by auto
  then show ?case
  proof cases
    case 1
    then obtain k where k: "k < length chunks" "c = chunks ! k"
      by (auto simp: in_set_conv_nth)
    have "map tc_chunk_id chunks ! k =
          map (generate_chunk_id md5 (dp_document_name page) (dp_page_number page))
            [0..<length chunks] ! k"
      by (simp only: chunk_text_ids [OF first])
    with k have id: "tc_chunk_id c =
        generate_chunk_id md5 (dp_document_name page) (dp_page_number page) k" by simp
    have "strip (dp_text page) \<noteq> []"
    proof
      assume "strip (dp_text page) = []"
      from chunk_text_blank [OF this] first have "chunks = []" by simp
      with 1 show False by simp
    qed
    with id show ?thesis by auto
  next
    case 2
    from Cons.IH [OF rest 2] show ?thesis by auto
  qed
qed

lemma chunk_pages_distinct:
  assumes "chunk_pages md5 self pages = Some (Inr out)"
      and "distinct (map (\<lambda>page. (dp_document_name page, dp_page_number page))
                      (filter (\<lambda>page. strip (dp_text page) \<noteq> []) pages))"
  shows "distinct (map tc_chunk_id out)"
  using assms
proof (induction pages arbitrary: out)
  case Nil
  then show ?case by simp
next
  case (Cons page pages)
  from Cons.prems(1) obtain chunks all_chunks where
    first: "chunk_text md5 self (dp_text page) (dp_document_name page) (dp_page_number page)
              (dp_is_section page) = Some (Inr chunks)" and
    rest: "chunk_pages md5 self pages = Some (Inr all_chunks)" and
    out: "out = chunks @ all_chunks"
    by (auto split: option.splits sum.splits)
  from Cons.prems(2)
  have keys: "distinct (map (\<lambda>page. (dp_document_name page, dp_page_number page))
                          (filter (\<lambda>page. strip (dp_text page) \<noteq> []) pages))"
    by (simp split: if_splits)
  note tail = Cons.IH [OF rest keys]
  show ?case
  proof (cases "strip (dp_text page) = []")
    case True
    from chunk_text_blank [OF this] first have "chunks = []" by simp
    with out tail show ?thesis by simp
  next
    case False
    with Cons.prems(2)
    have fresh: "(dp_document_name page, dp_page_number page) \<notin>
        (\<lambda>page. (dp_document_name page, dp_page_number page)) `
          set (filter (\<lambda>page. strip (dp_text page) \<noteq> []) pages)"
      by simp
    have "tc_chunk_id c \<noteq> tc_chunk_id c'" if c: "c \<in> set chunks" and c': "c' \<in> set all_chunks"
      for c c'
    proof
      assume same: "tc_chunk_id c = tc_chunk_id c'"
      from c obtain k where k: "k < length chunks" "c = chunks ! k"
        by (auto simp: in_set_conv_nth)
      have "map tc_chunk_id chunks ! k =
            map (generate_chunk_id md5 (dp_document_name page) (dp_page_number page))
              [0..<length chunks] ! k"
        by (simp only: chunk_text_ids [OF first])
      with k have id: "tc_chunk_id c =
          generate_chunk_id md5 (dp_document_name page) (dp_page_number page) k" by simp
      from chunk_pages_ids [OF rest c'] obtain page' i where
        page': "page' \<in> set pages" "strip (dp_text page') \<noteq> []" and
        id': "tc_chunk_id c' =
                generate_chunk_id md5 (dp_document_name page') (dp_page_number page') i"
        by blast
      from same id id' generate_chunk_id_inj
      have "dp_document_name page = dp_document_name page'
            \<and> dp_page_number page = dp_page_number page'" by metis
      with page' fresh show False by force
    qed
    then have "set (map tc_chunk_id chunks) \<inter> set (map tc_chunk_id all_chunks) = {}"
      by auto
    with chunk_text_distinct [OF first] tail out show ?thesis by simp
  qed
qed

subsection \<open>Boundaries\<close>

lemma rfind_absent:
  assumes "sub \<noteq> []" and "hd sub \<notin> set s"
  shows "rfind s sub start end = - 1"
proof -
  have "take (length sub) (drop i s) \<noteq> sub" for i
  proof
    assume eq: "take (length sub) (drop i s) = sub"
    with assms(1) have "hd sub \<in> set (take (length sub) (drop i s))"
      by (metis hd_in_set)
    then have "hd sub \<in> set s"
      by (meson in_set_dropD in_set_takeD)
    with assms(2) show False by simp
  qed
  then show ?thesis by (simp add: rfind_def Let_def)
qed

text \<open>An index that \<open>rfind\<close> returns is not negative.\<close>

lemma rfind_range: "rfind s sub start end = - 1 \<or> 0 \<le> rfind s sub start end"
proof -
  have "(case xs of [] \<Rightarrow> - 1 | i # _ \<Rightarrow> int i) = - 1
        \<or> 0 \<le> (case xs of [] \<Rightarrow> - 1 | i # _ \<Rightarrow> int i)" for xs :: "nat list"
    by (cases xs) simp_all
  then show ?thesis unfolding rfind_def Let_def by blast
qed

lemma rfind_clip:
  "int (length s) \<le> end \<Longrightarrow> rfind s sub 0 end = rfind s sub 0 (int (length s))"
  by (simp add: rfind_def Let_def)

lemma try_marker_absent:
  "end_marker \<noteq> [] \<Longrightarrow> hd end_marker \<notin> set search_text
     \<Longrightarrow> try_marker search_text search_start position end_marker best_break = best_break"
  by (simp add: try_marker_def rfind_absent)

lemma set_slice: "set (slice xs i j) \<subseteq> set xs"
  unfolding slice_def Let_def by (meson in_set_dropD in_set_takeD subsetI)

lemma word_end_loop_plain:
  assumes "0 \<le> word_end"
      and "\<forall>c \<in> set tx. c \<noteq> CHR '' '' \<and> c \<noteq> CHR 0x0A \<and> c \<noteq> CHR 0x09"
  shows "word_end_loop tx word_end = Inr (max word_end (int (length tx)))"
  using assms
proof (induction tx word_end rule: word_end_loop.induct)
  case (1 tx word_end)
  show ?case
  proof (cases "word_end < int (length tx)")
    case False
    then show ?thesis by (subst word_end_loop.simps) simp
  next
    case True
    with "1.prems"(1) have index: "py_index tx word_end = Some (tx ! nat word_end)"
      by (simp add: py_index_def)
    from True "1.prems"(1) have "tx ! nat word_end \<in> set tx" by simp
    with "1.prems"(2)
    have plain: "tx ! nat word_end \<noteq> CHR '' '' \<and> tx ! nat word_end \<noteq> CHR 0x0A
                 \<and> tx ! nat word_end \<noteq> CHR 0x09" by blast
    from "1.prems" have "0 \<le> word_end + 1" by simp
    from "1.IH" [OF True index plain this "1.prems"(2)] True index plain show ?thesis
      by (subst word_end_loop.simps) simp
  qed
qed

text \<open>What the fallback loop returns is not before the position it starts from.\<close>

lemma word_end_loop_ge: "word_end_loop tx word_end = Inr r \<Longrightarrow> word_end \<le> r"
proof (induction tx word_end rule: word_end_loop.induct)
  case (1 tx word_end)
  from "1.prems" show ?case
    by (subst (asm) word_end_loop.simps)
       (auto split: if_splits option.splits dest!: "1.IH" [rotated -1])
qed

text \<open>
  In a text without sentence punctuation and without whitespace the boundary is the end
  of the text.
\<close>

lemma find_boundary_plain:
  assumes "\<forall>c \<in> set tx. c \<notin> set ''.!? '' \<and> c \<noteq> CHR 0x0A \<and> c \<noteq> CHR 0x09"
      and "0 \<le> position"
  shows "find_boundary tx position = Inr (max position (int (length tx)))"
proof -
  let ?a = "max 0 (position - 50)"
  let ?st = "slice tx ?a (min (int (length tx)) (position + 50))"
  have absent: "try_marker ?st ?a position m best = best" if "m \<in> set sentence_ends" for m best
  proof (rule try_marker_absent)
    from that show "m \<noteq> []" by (auto simp: sentence_ends_def)
    from that have "hd m \<in> set ''.!?''" by (auto simp: sentence_ends_def)
    with assms(1) have "hd m \<notin> set tx" by auto
    with set_slice [of tx] show "hd m \<notin> set ?st" by blast
  qed
  have "fold (try_marker ?st ?a position) ms None = None" if "set ms \<subseteq> set sentence_ends" for ms
    using that by (induction ms) (simp_all add: absent)
  then have "fold (try_marker ?st ?a position) sentence_ends None = None" by simp
  moreover have "word_end_loop tx position = Inr (max position (int (length tx)))"
    using assms by (intro word_end_loop_plain) auto
  ultimately show ?thesis by (simp add: find_boundary_def Let_def)
qed

lemma strip_plain: "\<forall>c \<in> set s. \<not> is_space c \<Longrightarrow> strip s = s"
proof -
  assume plain: "\<forall>c \<in> set s. \<not> is_space c"
  have "dropWhile is_space xs = xs" if "\<forall>c \<in> set xs. \<not> is_space c" for xs
    using that by (cases xs) simp_all
  from this [of s] this [of "rev s"] plain show ?thesis by (simp add: strip_def)
qed

lemma slice_all: "slice xs 0 (int (length xs)) = xs"
  by (simp add: slice_def slice_bound_def)

text \<open>
  The first window over such a text, when it is longer than a positive chunk size, ends
  at the end of the text.
\<close>

lemma window_end_plain:
  assumes "\<forall>c \<in> set tx. c \<notin> set ''.!? '' \<and> c \<noteq> CHR 0x0A \<and> c \<noteq> CHR 0x09"
      and "0 < chunk_size self" and "chunk_size self < int (length tx)"
  shows "window_end self tx 0 = Inr (int (length tx))"
proof -
  from assms(2) have "0 \<le> chunk_size self" by simp
  from find_boundary_plain [OF assms(1) this]
  have "find_boundary tx (chunk_size self) = Inr (max (chunk_size self) (int (length tx)))" .
  moreover from assms(3) have "max (chunk_size self) (int (length tx)) = int (length tx)"
    by simp
  ultimately have "find_boundary tx (chunk_size self) = Inr (int (length tx))" by simp
  moreover from assms(2,3) have "tx \<noteq> []" by auto
  ultimately show ?thesis using assms(2,3) by (simp add: window_end_def)
qed

subsection \<open>Runs of the loop\<close>

text \<open>
  A start from which the window leads back to the same start, before the last character of
  the text: the loop never returns from it.
\<close>

lemma chunk_loop_cycle:
  assumes less: "start < int (length tx)" and w: "window_end self tx start = Inr end"
      and same_start: "end - chunk_overlap self = start" and inner: "start < int (length tx) - 1"
  shows "chunk_loop mk self tx start chunk_index chunks = None"
proof (rule ccontr)
  assume "chunk_loop mk self tx start chunk_index chunks \<noteq> None"
  then obtain r where run: "chunk_loop mk self tx start chunk_index chunks = Some r" by blast
  let ?P = "\<lambda>(m :: nat \<Rightarrow> string \<Rightarrow> TextChunk) (slf :: TextChunker) (t :: string) (st :: int)
              (ix :: nat) (cs :: TextChunk list) (r :: error + TextChunk list).
              \<not> (slf = self \<and> t = tx \<and> st = start)"
  have "?P mk self tx start chunk_index chunks r"
  proof (rule chunk_loop.raw_induct [where P = ?P, OF _ run])
    fix lp m slf t st ix cs r
    assume IH: "\<And>m slf t st ix cs r. lp m slf t st ix cs = Some r \<Longrightarrow> ?P m slf t st ix cs r"
    assume body:
      "(if st < int (length t)
        then case window_end slf t st of
               Inl e \<Rightarrow> Some (Inl e)
             | Inr end \<Rightarrow>
                 let chunk_text = strip (slice t st end);
                     chunks' = if chunk_text \<noteq> [] then cs @ [m ix chunk_text] else cs;
                     chunk_index' = if chunk_text \<noteq> [] then ix + 1 else ix;
                     start' = end - chunk_overlap slf
                 in if int (length t) - 1 \<le> start' then Some (Inr chunks')
                    else lp m slf t start' chunk_index' chunks'
        else Some (Inr cs)) = Some r"
    show "?P m slf t st ix cs r"
    proof
      assume same: "slf = self \<and> t = tx \<and> st = start"
      let ?t = "strip (slice tx start end)"
      from body same less w same_start inner
      have "lp m self tx start (if ?t \<noteq> [] then ix + 1 else ix)
              (if ?t \<noteq> [] then cs @ [m ix ?t] else cs) = Some r"
        by (simp add: Let_def)
      from IH [OF this] show False by simp
    qed
  qed
  then show False by simp
qed

text \<open>
  A text without whitespace and sentence punctuation, longer than a positive chunk size,
  chunked with an overlap of at most one character, is one chunk: the whole text, however
  long it is.
\<close>

lemma chunk_text_plain:
  assumes plain: "\<forall>c \<in> set tx. \<not> is_space c \<and> c \<notin> set ''.!?''"
      and size: "0 < chunk_size self" "chunk_size self < int (length tx)"
      and overlap: "chunk_overlap self \<le> 1"
  shows "chunk_text md5 self tx document_name page_number is_section =
           Some (Inr [new_chunk md5 document_name page_number is_section 0 tx])"
proof -
  from plain have stripped: "strip tx = tx" by (intro strip_plain) simp
  from size have nonempty: "tx \<noteq> []" by auto
  have "\<not> is_space c \<Longrightarrow> c \<noteq> CHR '' '' \<and> c \<noteq> CHR 0x0A \<and> c \<noteq> CHR 0x09" for c
    by (auto simp: is_space_def)
  with plain have "\<forall>c \<in> set tx. c \<notin> set ''.!? '' \<and> c \<noteq> CHR 0x0A \<and> c \<noteq> CHR 0x09"
    by auto
  from window_end_plain [OF this size]
  have w: "window_end self tx 0 = Inr (int (length tx))" .
  from nonempty have less: "0 < int (length tx)" by simp
  from overlap have last: "int (length tx) - 1 \<le> int (length tx) - chunk_overlap self"
    by simp
  from chunk_loop_last [OF less w last] stripped nonempty
  have "chunk_loop (new_chunk md5 document_name page_number is_section) self tx 0 0 [] =
          Some (Inr [new_chunk md5 document_name page_number is_section 0 tx])"
    by (simp add: slice_all)
  with stripped nonempty size show ?thesis by (simp add: chunk_text_def)
qed

subsection \<open>The sample texts\<close>

lemma length_short_sentence: "length short_sentence = 11"
  by (simp add: short_sentence_def)

lemma strip_short_sentence: "strip short_sentence = short_sentence"
  by (simp add: strip_def short_sentence_def is_space_def)

lemma short_sentence_rfind:
  assumes "11 \<le> e"
  shows "rfind short_sentence ''. '' 0 e = 1"
    and "rfind short_sentence ''! '' 0 e = - 1"
    and "rfind short_sentence ''? '' 0 e = - 1"
    and "rfind short_sentence [CHR ''.'', CHR 0x0A] 0 e = - 1"
    and "rfind short_sentence [CHR ''!'', CHR 0x0A] 0 e = - 1"
    and "rfind short_sentence [CHR ''?'', CHR 0x0A] 0 e = - 1"
proof -
  from assms have clip: "rfind short_sentence m 0 e = rfind short_sentence m 0 11" for m
    using rfind_clip [of short_sentence e m] by (simp add: length_short_sentence)
  show "rfind short_sentence ''. '' 0 e = 1"
    unfolding clip by (simp add: rfind_def short_sentence_def upt_rec)
  show "rfind short_sentence ''! '' 0 e = - 1"
    unfolding clip by (simp add: rfind_def short_sentence_def upt_rec)
  show "rfind short_sentence ''? '' 0 e = - 1"
    unfolding clip by (simp add: rfind_def short_sentence_def upt_rec)
  show "rfind short_sentence [CHR ''.'', CHR 0x0A] 0 e = - 1"
    unfolding clip by (simp add: rfind_def short_sentence_def upt_rec)
  show "rfind short_sentence [CHR ''!'', CHR 0x0A] 0 e = - 1"
    unfolding clip by (simp add: rfind_def short_sentence_def upt_rec)
  show "rfind short_sentence [CHR ''?'', CHR 0x0A] 0 e = - 1"
    unfolding clip by (simp add: rfind_def short_sentence_def upt_rec)
qed

text \<open>Near its beginning the sentence has one boundary, after its full stop and space.\<close>

lemma short_sentence_boundary:
  assumes "0 \<le> position" and "position \<le> 50"
  shows "find_boundary short_sentence position = Inr 3"
proof -
  from assms have "slice short_sentence (max 0 (position - 50))
                     (min (int (length short_sentence)) (position + 50)) = short_sentence"
    using slice_all [of short_sentence] by (simp add: length_short_sentence)
  moreover from assms have "11 \<le> position - max 0 (position - 50) + 50" by simp
  note short_sentence_rfind [OF this]
  ultimately show ?thesis
    using assms by (simp add: find_boundary_def try_marker_def sentence_ends_def)
qed

lemma short_sentence_window:
  assumes "start = 0 \<or> start = 1"
  shows "window_end \<lparr>chunk_size = 3, chunk_overlap = 2\<rparr> short_sentence start = Inr 3"
proof -
  from assms have "find_boundary short_sentence (start + 3) = Inr 3"
    by (intro short_sentence_boundary) auto
  with assms show ?thesis by (auto simp: window_end_def length_short_sentence)
qed

lemma short_sentence_loop:
  "chunk_loop mk \<lparr>chunk_size = 3, chunk_overlap = 2\<rparr> short_sentence 0 0 [] = None"
proof -
  let ?self = "\<lparr>chunk_size = 3, chunk_overlap = 2\<rparr>"
  have first: "window_end ?self short_sentence 0 = Inr 3"
    and again: "window_end ?self short_sentence 1 = Inr 3"
    by (simp_all add: short_sentence_window)
  have "chunk_loop mk ?self short_sentence 1 chunk_index chunks = None" for chunk_index chunks
    by (rule chunk_loop_cycle [OF _ again]) (simp_all add: length_short_sentence)
  moreover have "chunk_loop mk ?self short_sentence 0 0 [] =
          chunk_loop mk ?self short_sentence (3 - chunk_overlap ?self)
            (if strip (slice short_sentence 0 3) \<noteq> [] then 0 + 1 else 0)
            (if strip (slice short_sentence 0 3) \<noteq> []
             then [] @ [mk 0 (strip (slice short_sentence 0 3))] else [])"
    by (rule chunk_loop_next [OF _ first]) (simp_all add: length_short_sentence)
  ultimately show ?thesis by simp
qed

lemma length_long_word: "length long_word = 70"
  by (simp add: long_word_def)

lemma long_word_plain:
  "\<forall>c \<in> set long_word. c \<notin> set ''.!? '' \<and> c \<noteq> CHR 0x0A \<and> c \<noteq> CHR 0x09"
  by (simp add: long_word_def)

lemma strip_long_word: "strip long_word = long_word"
  by (rule strip_plain) (simp add: long_word_def is_space_def)

lemma long_word_loop:
  "chunk_loop mk \<lparr>chunk_size = 10, chunk_overlap = 2\<rparr> long_word 0 0 [] =
     Some (Inr [mk 0 long_word, mk 1 ''aa''])"
proof -
  let ?self = "\<lparr>chunk_size = 10, chunk_overlap = 2\<rparr>"
  have first: "window_end ?self long_word 0 = Inr (int (length long_word))"
    by (rule window_end_plain [OF long_word_plain]) (simp_all add: length_long_word)
  have second: "window_end ?self long_word 68 = Inr 78"
    by (simp add: window_end_def length_long_word)
  have tail: "strip (slice long_word 68 78) = ''aa''"
    by (simp add: slice_def slice_bound_def long_word_def strip_def is_space_def)
  have whole: "strip (slice long_word 0 (int (length long_word))) = long_word"
    by (simp only: slice_all strip_long_word)
  have nonempty: "long_word \<noteq> []" by (simp add: long_word_def)
  have "chunk_loop mk ?self long_word 0 0 [] =
          chunk_loop mk ?self long_word (int (length long_word) - chunk_overlap ?self)
            (if strip (slice long_word 0 (int (length long_word))) \<noteq> [] then 0 + 1 else 0)
            (if strip (slice long_word 0 (int (length long_word))) \<noteq> []
             then [] @ [mk 0 (strip (slice long_word 0 (int (length long_word))))] else [])"
    by (rule chunk_loop_next [OF _ first]) (simp_all add: length_long_word)
  also have "\<dots> = chunk_loop mk ?self long_word 68 1 [mk 0 long_word]"
    unfolding whole using nonempty by (simp add: length_long_word)
  also have "\<dots> = Some (Inr (if strip (slice long_word 68 78) \<noteq> []
                                 then [mk 0 long_word] @ [mk 1 (strip (slice long_word 68 78))]
                                 else [mk 0 long_word]))"
    by (rule chunk_loop_last [OF _ second]) (simp_all add: length_long_word)
  finally show ?thesis by (simp add: tail)
qed

subsection \<open>Digests\<close>

lemma hexdigest_take8:
  "take 8 (hexdigest w) =
     map (\<lambda>i. hex_char (unat (drop_bit (4 * i) w) mod 16)) [31, 30, 29, 28, 27, 26, 25, 24]"
proof -
  have "[0..<32] = [0..<24] @ [24, 25, 26, 27, 28, 29, 30, 31]"
    by (simp add: upt_rec)
  then have "rev [0..<32] = [31, 30, 29, 28, 27, 26, 25, 24] @ rev [0..<24]" by simp
  then show ?thesis by (simp add: hexdigest_def)
qed

subsection \<open>The sample ids\<close>

lemma str_nat_small: "str_nat 0 = ''0''" "str_nat (Suc 0) = ''1''" "str_nat 2 = ''2''"
  by (simp_all add: str_nat.simps digit_char_def)

lemma str_int_small: "str_int 1 = ''1''" "str_int 2 = ''2''"
  by (simp_all add: str_int_def str_nat_small)

lemma sample_md5_values:
  "sample_md5 (''a.txt'' @ ''_page'' @ ''1'' @ ''_chunk'' @ ''0'') = 0x7aaf30b1d79a76d5281a3baa9d754e58"
  "sample_md5 (''a.txt'' @ ''_page'' @ ''2'' @ ''_chunk'' @ ''0'') = 0x192a44b607479a7da95090ba2bec839d"
  "sample_md5 (''a.txt'' @ ''_page'' @ ''1'' @ ''_chunk'' @ ''1'') = 0x0220adac2c59c1cfa08dd103ed1a5e78"
  by (simp_all add: sample_md5_def)

lemma sample_digests:
  "take 8 (hexdigest 0x7aaf30b1d79a76d5281a3baa9d754e58) = ''7aaf30b1''"
  "take 8 (hexdigest 0x192a44b607479a7da95090ba2bec839d) = ''192a44b6''"
  "take 8 (hexdigest 0x0220adac2c59c1cfa08dd103ed1a5e78) = ''0220adac''"
  by (simp_all add: hexdigest_take8 hex_char_def)

lemma sample_chunk_ids:
  "generate_chunk_id sample_md5 ''a.txt'' 1 0 = ''a.txt_p1_c0_7aaf30b1''"
  "generate_chunk_id sample_md5 ''a.txt'' 2 0 = ''a.txt_p2_c0_192a44b6''"
  "generate_chunk_id sample_md5 ''a.txt'' 1 1 = ''a.txt_p1_c1_0220adac''"
  unfolding generate_chunk_id_def Let_def One_nat_def str_int_small str_nat_small
    sample_md5_values sample_digests
  by simp_all

subsection \<open>Pages that fit into one chunk\<close>

text \<open>
  When every page, trimmed, is no longer than the chunk size, the run returns one chunk for
  each page that is not blank, whatever the overlap is.
\<close>

lemma chunk_pages_short:
  assumes "\<forall>page \<in> set pages. int (length (strip (dp_text page))) \<le> chunk_size self"
  shows "chunk_pages md5 self pages =
           Some (Inr (map (\<lambda>page. new_chunk md5 (dp_document_name page) (dp_page_number page)
                                     (dp_is_section page) 0 (strip (dp_text page)))
                        (filter (\<lambda>page. strip (dp_text page) \<noteq> []) pages)))"
  using assms
proof (induction pages)
  case Nil
  show ?case by simp
next
  case (Cons page pages)
  then have rest: "chunk_pages md5 self pages =
           Some (Inr (map (\<lambda>page. new_chunk md5 (dp_document_name page) (dp_page_number page)
                                     (dp_is_section page) 0 (strip (dp_text page)))
                        (filter (\<lambda>page. strip (dp_text page) \<noteq> []) pages)))"
    by simp
  from Cons.prems have fits: "int (length (strip (dp_text page))) \<le> chunk_size self" by simp
  show ?case
  proof (cases "strip (dp_text page) = []")
    case True
    then have "chunk_text md5 self (dp_text page) (dp_document_name page) (dp_page_number page)
                 (dp_is_section page) = Some (Inr [])"
      by (rule chunk_text_blank)
    with True rest show ?thesis by simp
  next
    case False
    then have "dp_text page \<noteq> []" by (auto simp: strip_def)
    with False fits
    have "chunk_text md5 self (dp_text page) (dp_document_name page) (dp_page_number page)
            (dp_is_section page) =
          Some (Inr [new_chunk md5 (dp_document_name page) (dp_page_number page)
                       (dp_is_section page) 0 (strip (dp_text page))])"
      by (simp add: chunk_text_def)
    with False rest show ?thesis by simp
  qed
qed

subsection \<open>Exceptions of the chunker\<close>

text \<open>
  The one exception the chunker can raise is the \<open>IndexError\<close> of \<open>text[word_end]\<close> in the
  boundary search.
\<close>

lemma word_end_loop_raises: "word_end_loop tx word_end = Inl e \<Longrightarrow> e = IndexError"
proof (induction tx word_end rule: word_end_loop.induct)
  case (1 tx word_end)
  show ?case
  proof (cases "word_end < int (length tx)")
    case False
    with "1.prems" show ?thesis by (subst (asm) word_end_loop.simps) simp
  next
    case less: True
    show ?thesis
    proof (cases "py_index tx word_end")
      case None
      with less "1.prems" show ?thesis by (subst (asm) word_end_loop.simps) simp
    next
      case (Some c)
      show ?thesis
      proof (cases "c \<noteq> CHR '' '' \<and> c \<noteq> CHR 0x0A \<and> c \<noteq> CHR 0x09")
        case False
        with less Some "1.prems" show ?thesis by (subst (asm) word_end_loop.simps) auto
      next
        case True
        with less Some "1.prems" have "word_end_loop tx (word_end + 1) = Inl e"
          by (subst (asm) word_end_loop.simps) simp
        from "1.IH" [OF less Some True this] show ?thesis .
      qed
    qed
  qed
qed

lemma find_boundary_raises: "find_boundary tx position = Inl e \<Longrightarrow> e = IndexError"
  unfolding find_boundary_def Let_def
  by (auto split: option.splits if_splits dest: word_end_loop_raises)

lemma window_end_raises: "window_end self tx start = Inl e \<Longrightarrow> e = IndexError"
  unfolding window_end_def Let_def
  by (auto split: sum.splits if_splits dest: find_boundary_raises)

lemma chunk_loop_raises:
  assumes "chunk_loop mk self tx start chunk_index chunks = Some (Inl e)"
  shows "e = IndexError"
proof -
  let ?P = "\<lambda>(m :: nat \<Rightarrow> string \<Rightarrow> TextChunk) (slf :: TextChunker) (t :: string) (st :: int)
              (ix :: nat) (cs :: TextChunk list) (r :: error + TextChunk list).
              \<forall>e. r = Inl e \<longrightarrow> e = IndexError"
  have "?P mk self tx start chunk_index chunks (Inl e)"
  proof (rule chunk_loop.raw_induct [where P = ?P, OF _ assms])
    fix lp m slf t st ix cs r
    assume IH: "\<And>m slf t st ix cs r. lp m slf t st ix cs = Some r \<Longrightarrow> ?P m slf t st ix cs r"
    assume body:
      "(if st < int (length t)
        then case window_end slf t st of
               Inl e \<Rightarrow> Some (Inl e)
             | Inr end \<Rightarrow>
                 let chunk_text = strip (slice t st end);
                     chunks' = if chunk_text \<noteq> [] then cs @ [m ix chunk_text] else cs;
                     chunk_index' = if chunk_text \<noteq> [] then ix + 1 else ix;
                     start' = end - chunk_overlap slf
                 in if int (length t) - 1 \<le> start' then Some (Inr chunks')
                    else lp m slf t start' chunk_index' chunks'
        else Some (Inr cs)) = Some r"
    show "?P m slf t st ix cs r"
    proof (intro allI impI)
      fix e
      assume r: "r = Inl e"
      with body have less: "st < int (length t)" by (auto split: if_splits)
      show "e = IndexError"
      proof (cases "window_end slf t st")
        case (Inl e')
        with body less r have "e' = e" by simp
        with Inl window_end_raises show ?thesis by blast
      next
        case (Inr "end")
        let ?t = "strip (slice t st end)"
        from body less r Inr
        have "lp m slf t (end - chunk_overlap slf) (if ?t \<noteq> [] then ix + 1 else ix)
                (if ?t \<noteq> [] then cs @ [m ix ?t] else cs) = Some (Inl e)"
          by (simp add: Let_def split: if_splits)
        from IH [OF this] show ?thesis by simp
      qed
    qed
  qed
  then show ?thesis by simp
qed

lemma chunk_text_raises:
  "chunk_text md5 self tx document_name page_number is_section = Some (Inl e) \<Longrightarrow> e = IndexError"
  unfolding chunk_text_def Let_def
  by (auto split: if_splits dest: chunk_loop_raises)

lemma chunk_pages_raises: "chunk_pages md5 self pages = Some (Inl e) \<Longrightarrow> e = IndexError"
proof (induction pages)
  case Nil
  then show ?case by simp
next
  case (Cons page pages)
  show ?case
  proof (cases "chunk_text md5 self (dp_text page) (dp_document_name page) (dp_page_number page)
                  (dp_is_section page)")
    case None
    with Cons.prems show ?thesis by simp
  next
    case (Some r)
    show ?thesis
    proof (cases r)
      case (Inl e')
      with Some Cons.prems have "e' = e" by simp
      with Some Inl chunk_text_raises show ?thesis by blast
    next
      case (Inr chunks)
      with Some Cons.prems have "chunk_pages md5 self pages = Some (Inl e)"
        by (auto split: option.splits sum.splits)
      then show ?thesis by (rule Cons.IH)
    qed
  qed
qed

subsection \<open>The result dicts of \<open>search\<close>\<close>

text \<open>
  Every result dict that \<open>search\<close> builds has the four keys. Its \<open>distance\<close> is \<open>None\<close> when
  the query result has no distances, and \<open>retrieve\<close> then gives the chunk no score.
\<close>

lemma format_result_keys:
  assumes "format_result results i = Inr result"
  shows "res_chunk_id result \<noteq> None \<and> res_text result \<noteq> None \<and> res_metadata result \<noteq> None
       \<and> res_distance result \<noteq> None
       \<and> (qr_distances results = None \<longrightarrow> res_distance result = Some None)"
  using assms unfolding format_result_def distance_at_def
  by (auto split: sum.splits option.splits list.splits)

lemma format_results_keys:
  assumes "format_results results is = Inr found" and "result \<in> set found"
  shows "res_chunk_id result \<noteq> None \<and> res_text result \<noteq> None \<and> res_metadata result \<noteq> None
       \<and> res_distance result \<noteq> None
       \<and> (qr_distances results = None \<longrightarrow> res_distance result = Some None)"
  using assms
proof (induction "is" arbitrary: found)
  case Nil
  then show ?case by simp
next
  case (Cons i "is")
  from Cons.prems(1) obtain r rs where
    r: "format_result results i = Inr r" and rs: "format_results results is = Inr rs"
    and found: "found = r # rs"
    by (auto split: sum.splits)
  from Cons.prems(2) found consider "result = r" | "result \<in> set rs" by auto
  then show ?case
  proof cases
    case 1
    with format_result_keys [OF r] show ?thesis by simp
  next
    case 2
    from Cons.IH [OF rs this] show ?thesis .
  qed
qed

lemma search_keys:
  assumes "search query_index settings query top_k filter_doc = Inr found"
      and "result \<in> set found"
  shows "res_chunk_id result \<noteq> None \<and> res_text result \<noteq> None \<and> res_metadata result \<noteq> None
       \<and> res_distance result \<noteq> None"
proof -
  define q where "q = query_index query (int_or top_k (st_top_k_results settings))
                        (case filter_doc of None \<Rightarrow> None
                         | Some d \<Rightarrow> if d = [] then None else Some d)"
  from assms(1)
  have run: "(case q of
                Inl e \<Rightarrow> Inl e
              | Inr results \<Rightarrow>
                  (case qr_ids results of
                     [] \<Rightarrow> Inr []
                   | ids # rest \<Rightarrow>
                       if ids = [] then Inr []
                       else format_results results [0..<length ids])) = Inr found"
    by (simp add: search_def Let_def q_def)
  show ?thesis
  proof (cases q)
    case (Inl e)
    with run show ?thesis by simp
  next
    case (Inr results)
    show ?thesis
    proof (cases "qr_ids results")
      case Nil
      with run Inr assms(2) show ?thesis by simp
    next
      case (Cons ids rest)
      show ?thesis
      proof (cases "ids = []")
        case True
        with run Inr Cons assms(2) show ?thesis by simp
      next
        case False
        with run Inr Cons have "format_results results [0..<length ids] = Inr found"
          by (simp del: upt_Suc)
        from format_results_keys [OF this assms(2)] show ?thesis by simp
      qed
    qed
  qed
qed

lemma to_retrieved_no_score:
  "res_distance result = Some None \<Longrightarrow> to_retrieved result = Inr chunk \<Longrightarrow> rc_score chunk = None"
  by (auto simp: to_retrieved_def split: sum.splits)


subsection \<open>The sample pages\<close>

lemma strip_berlin: "strip (dp_text page_berlin) = ''Berlin.''"
  by (simp add: page_berlin_def strip_def is_space_def)

lemma length_paris_text: "length paris_text = 48"
  by (simp add: paris_text_def)

lemma strip_paris_text: "strip paris_text = paris_text"
  by (simp add: strip_def paris_text_def is_space_def)

lemma paris_text_rfind:
  assumes "48 \<le> e"
  shows "rfind paris_text ''. '' 0 e = 30"
    and "rfind paris_text ''! '' 0 e = - 1"
    and "rfind paris_text ''? '' 0 e = - 1"
    and "rfind paris_text [CHR ''.'', CHR 0x0A] 0 e = - 1"
    and "rfind paris_text [CHR ''!'', CHR 0x0A] 0 e = - 1"
    and "rfind paris_text [CHR ''?'', CHR 0x0A] 0 e = - 1"
proof -
  from assms have clip: "rfind paris_text m 0 e = rfind paris_text m 0 48" for m
    using rfind_clip [of paris_text e m] by (simp add: length_paris_text)
  have absent: "rfind paris_text m 0 48 = - 1" if "m \<noteq> []" "hd m \<notin> set paris_text" for m
    using that by (rule rfind_absent)
  show "rfind paris_text ''. '' 0 e = 30"
    unfolding clip by (simp add: rfind_def paris_text_def upt_rec)
  show "rfind paris_text ''! '' 0 e = - 1"
    unfolding clip by (rule absent) (simp_all add: paris_text_def)
  show "rfind paris_text ''? '' 0 e = - 1"
    unfolding clip by (rule absent) (simp_all add: paris_text_def)
  show "rfind paris_text [CHR ''.'', CHR 0x0A] 0 e = - 1"
    unfolding clip by (simp add: rfind_def paris_text_def upt_rec)
  show "rfind paris_text [CHR ''!'', CHR 0x0A] 0 e = - 1"
    unfolding clip by (rule absent) (simp_all add: paris_text_def)
  show "rfind paris_text [CHR ''?'', CHR 0x0A] 0 e = - 1"
    unfolding clip by (rule absent) (simp_all add: paris_text_def)
qed

lemma paris_text_boundary: "find_boundary paris_text 35 = Inr 32"
proof -
  have "slice paris_text (max 0 (35 - 50)) (min (int (length paris_text)) (35 + 50)) = paris_text"
    using slice_all [of paris_text] by (simp add: length_paris_text)
  moreover have "48 \<le> (35::int) - max 0 (35 - 50) + 50" by simp
  note paris_text_rfind [OF this]
  ultimately show ?thesis
    by (simp add: find_boundary_def try_marker_def sentence_ends_def)
qed

text \<open>
  The page of 48 characters, with a chunk size of 35 and an overlap of 5, becomes two
  chunks: its first sentence, and the text from character 27 on.
\<close>

lemma paris_text_loop:
  "chunk_loop mk \<lparr>chunk_size = 35, chunk_overlap = 5\<rparr> paris_text 0 0 [] =
     Some (Inr [mk 0 ''Paris is the capital of France.'', mk 1 ''nce. It is in Europe.''])"
proof -
  let ?self = "\<lparr>chunk_size = 35, chunk_overlap = 5\<rparr>"
  have first: "window_end ?self paris_text 0 = Inr 32"
    by (simp add: window_end_def length_paris_text paris_text_boundary)
  have second: "window_end ?self paris_text 27 = Inr 62"
    by (simp add: window_end_def length_paris_text)
  have head: "strip (slice paris_text 0 32) = ''Paris is the capital of France.''"
    by (simp add: slice_def slice_bound_def paris_text_def strip_def is_space_def)
  have tail: "strip (slice paris_text 27 62) = ''nce. It is in Europe.''"
    by (simp add: slice_def slice_bound_def paris_text_def strip_def is_space_def)
  have "chunk_loop mk ?self paris_text 0 0 [] =
          chunk_loop mk ?self paris_text (32 - chunk_overlap ?self)
            (if strip (slice paris_text 0 32) \<noteq> [] then 0 + 1 else 0)
            (if strip (slice paris_text 0 32) \<noteq> []
             then [] @ [mk 0 (strip (slice paris_text 0 32))] else [])"
    by (rule chunk_loop_next [OF _ first]) (simp_all add: length_paris_text)
  also have "\<dots> = chunk_loop mk ?self paris_text 27 1 [mk 0 ''Paris is the capital of France.'']"
    unfolding head by simp
  also have "\<dots> = Some (Inr (if strip (slice paris_text 27 62) \<noteq> []
                                 then [mk 0 ''Paris is the capital of France.'']
                                        @ [mk 1 (strip (slice paris_text 27 62))]
                                 else [mk 0 ''Paris is the capital of France.'']))"
    by (rule chunk_loop_last [OF _ second]) (simp_all add: length_paris_text)
  finally show ?thesis unfolding tail by simp
qed

text \<open>
  With a chunk size of \<open>-100\<close> the boundary search reads \<open>text[-100]\<close> of a text of seven
  characters.
\<close>

lemma negative_size_loop:
  "chunk_loop mk \<lparr>chunk_size = - 100, chunk_overlap = 50\<rparr> ''Berlin.'' 0 0 [] =
     Some (Inl IndexError)"
proof -
  let ?self = "\<lparr>chunk_size = - 100, chunk_overlap = 50\<rparr>"
  have "slice ''Berlin.'' (max 0 (- 100 - 50)) (min (int (length ''Berlin.'')) (- 100 + 50)) = []"
    by (simp add: slice_def slice_bound_def)
  moreover have "rfind [] m 0 (- 100 - max 0 (- 100 - 50) + 50) = - 1" if "m \<noteq> []" for m
    using that by (simp add: rfind_def)
  moreover have "word_end_loop ''Berlin.'' (- 100) = Inl IndexError"
    by (subst word_end_loop.simps) (simp add: py_index_def)
  ultimately have "find_boundary ''Berlin.'' (- 100) = Inl IndexError"
    by (simp add: find_boundary_def try_marker_def sentence_ends_def)
  then have "window_end ?self ''Berlin.'' 0 = Inl IndexError"
    by (simp add: window_end_def)
  then show ?thesis by (intro chunk_loop_error) simp_all
qed

subsection \<open>The sample index\<close>


subsection \<open>The sample completions\<close>

lemma deep_completion: "strip (extract_json_text (strip text_deep)) = text_deep"
proof -
  have plain: "strip text_deep = text_deep"
    unfolding text_deep_def by (rule strip_plain) (simp add: is_space_def)
  have "\<not> contains p (replicate n (CHR ''[''))" if "p \<noteq> []" "hd p \<noteq> CHR ''[''" for p n
    using that by (induction n) (auto simp: starts_with_def neq_Nil_conv)
  from this [of "''```json''" 1000] this [of "''```''" 1000]
  have "extract_json_text text_deep = text_deep"
    by (simp add: extract_json_text_def text_deep_def)
  with plain show ?thesis by simp
qed

lemma sample_loads_deep: "sample_loads text_deep = Inl RecursionError"
proof -
  have other: "text_deep \<noteq> t" if "length t \<noteq> 1000" for t
    using that by (auto simp: text_deep_def)
  have "text_deep \<noteq> text_array" "text_deep \<noteq> text_bogus" "text_deep \<noteq> text_mixed"
    "text_deep \<noteq> text_refusal_cited"
    by (rule other, simp add: text_array_def text_bogus_def text_mixed_def
          text_refusal_cited_def dq_def NO_INFO_RESPONSE_def)+
  then show ?thesis by (simp add: sample_loads_def)
qed

lemma fenced_completion: "strip (extract_json_text (strip text_fenced)) = ''Paris.''"
  by (simp add: text_fenced_def extract_json_text_def strip_def is_space_def starts_with_def
        closes_def)

lemma sample_loads_fenced: "sample_loads ''Paris.'' = Inl JSONDecodeError"
proof -
  have "''Paris.'' \<noteq> text_deep"
  proof
    assume "''Paris.'' = text_deep"
    then have "length ''Paris.'' = length text_deep" by (rule arg_cong)
    then show False by (simp add: text_deep_def)
  qed
  then show ?thesis
    by (simp add: sample_loads_def text_array_def text_bogus_def text_mixed_def
          text_refusal_cited_def dq_def NO_INFO_RESPONSE_def)
qed

section \<open>Claims about the answer validator\<close>

lemmas sample_defs =
  sample_loads_def text_array_def text_prose_def text_bogus_def text_mixed_def
  text_refusal_cited_def dq_def chunk_c1_def fixed_client_def NO_INFO_RESPONSE_def

lemmas validator_defs =
  parse_response_def parse_body_def validate_def check_source_def chunk_section_map_def
  extract_json_text_def strip_def is_space_def starts_with_def closes_def refusal_def

text \<open>
  C1. Every \<open>SourceReference\<close> in the response that \<open>_parse_response\<close> returns has the
  \<open>chunk_id\<close> of a retrieved chunk. The ids of the references are, in order, exactly the
  \<open>chunk_id\<close> values of the payload's sources that are ids of retrieved chunks: a source with
  any other \<open>chunk_id\<close> is dropped.
\<close>

theorem cited_sources_are_retrieved:
  assumes "parse_response loads response_text retrieved_chunks = Inr resp"
  shows "(\<forall>ref \<in> set (sources resp). sr_chunk_id ref \<in> rc_chunk_id ` set retrieved_chunks)
       \<and> (\<forall>parsed raw items.
             loads (strip (extract_json_text response_text)) = Inr parsed
             \<and> dict_get parsed ''sources'' (PList []) = Inr raw \<and> py_iter raw = Inr items
             \<longrightarrow> map (\<lambda>ref. PStr (sr_chunk_id ref)) (sources resp) =
                   filter (\<lambda>cid. cid \<in> PStr ` rc_chunk_id ` set retrieved_chunks)
                     (map (\<lambda>source. case dict_get source ''chunk_id'' (PStr []) of
                                      Inr cid \<Rightarrow> cid | Inl e \<Rightarrow> PNone) items))"
proof -
  let ?m = "chunk_section_map retrieved_chunks"
  have valid: "(\<exists>s. cid = PStr s \<and> ?m s \<noteq> None) \<longleftrightarrow> cid \<in> PStr ` rc_chunk_id ` set retrieved_chunks"
    for cid
    using chunk_section_map_None [of retrieved_chunks] by auto
  from parse_response_cases [OF assms] show ?thesis
  proof
    assume "loads (strip (extract_json_text response_text)) = Inl JSONDecodeError \<and> resp = refusal"
    then show ?thesis by (simp add: refusal_def)
  next
    assume "\<exists>parsed. loads (strip (extract_json_text response_text)) = Inr parsed
              \<and> validate parsed retrieved_chunks = Inr resp"
    then obtain parsed where
      loaded: "loads (strip (extract_json_text response_text)) = Inr parsed" and
      validated: "validate parsed retrieved_chunks = Inr resp" by blast
    from validate_sources [OF validated] obtain raw items where
      raw: "dict_get parsed ''sources'' (PList []) = Inr raw" and
      items: "py_iter raw = Inr items" and
      collected: "collect_sources ?m items = Inr (sources resp)" by blast
    have "sr_chunk_id ref \<in> rc_chunk_id ` set retrieved_chunks" if "ref \<in> set (sources resp)" for ref
    proof -
      from collect_sources_sound [OF collected that] obtain source where
        "check_source ?m source = Inr (Some ref)" by blast
      then have "?m (sr_chunk_id ref) \<noteq> None"
        using check_source_Some [of ?m source ref] by simp
      then show ?thesis by (simp add: chunk_section_map_None)
    qed
    moreover have "map (\<lambda>ref. PStr (sr_chunk_id ref)) (sources resp) =
        filter (\<lambda>cid. cid \<in> PStr ` rc_chunk_id ` set retrieved_chunks)
          (map (\<lambda>source. case dict_get source ''chunk_id'' (PStr []) of
                           Inr cid \<Rightarrow> cid | Inl e \<Rightarrow> PNone) items)"
      using collect_sources_ids [OF collected] by (simp only: valid)
    ultimately show ?thesis using loaded raw items by auto
  qed
qed

theorem cited_sources_are_retrieved_witness:
  "parse_response sample_loads text_mixed [chunk_c1] =
     Inr \<lparr>answer = PStr ''Paris.'',
          sources = [\<lparr>sr_document_name = PStr ''b.txt'', sr_page = PInt 0,
                      sr_chunk_id = ''c1'', sr_is_section = True\<rparr>]\<rparr>
   \<and> ''c1'' \<in> rc_chunk_id ` set [chunk_c1]
   \<and> [PStr ''c1''] =
       filter (\<lambda>cid. cid \<in> PStr ` rc_chunk_id ` set [chunk_c1]) [PStr ''c1'', PStr ''bogus_id'']"
proof -
  let ?resp = "\<lparr>answer = PStr ''Paris.'',
                 sources = [\<lparr>sr_document_name = PStr ''b.txt'', sr_page = PInt 0,
                             sr_chunk_id = ''c1'', sr_is_section = True\<rparr>]\<rparr>"
  have run: "parse_response sample_loads text_mixed [chunk_c1] = Inr ?resp"
    by (simp add: validator_defs sample_defs)
  have loaded: "sample_loads (strip (extract_json_text text_mixed)) =
      Inr (PDict [(''answer'', PStr ''Paris.''),
                  (''sources'', PList [PDict [(''document_name'', PStr ''b.txt''),
                                              (''chunk_id'', PStr ''c1'')],
                                       PDict [(''chunk_id'', PStr ''bogus_id'')]])])"
    by (simp add: validator_defs sample_defs)
  from cited_sources_are_retrieved [OF run] loaded run show ?thesis
    by (simp add: chunk_c1_def)
qed

text \<open>
  C2, as the claim states it, fails: for a source whose \<open>chunk_id\<close> is \<open>c1\<close>, retrieved from
  \<open>a.txt\<close> page 1, the reference carries the \<open>document_name\<close> \<open>b.txt\<close> that the payload
  gives and, the payload giving no page, the page 0.
\<close>

theorem source_reference_fields_counterexample:
  "parse_response sample_loads text_mixed [chunk_c1] =
     Inr \<lparr>answer = PStr ''Paris.'',
          sources = [\<lparr>sr_document_name = PStr ''b.txt'', sr_page = PInt 0,
                      sr_chunk_id = ''c1'', sr_is_section = True\<rparr>]\<rparr>
   \<and> rc_chunk_id chunk_c1 = ''c1'' \<and> rc_document_name chunk_c1 = ''a.txt''
   \<and> rc_page_number chunk_c1 = 1"
  by (simp add: validator_defs sample_defs)

text \<open>
  C2, amended. Each source of the payload whose \<open>chunk_id\<close> is the id of a retrieved chunk
  becomes a reference with that \<open>chunk_id\<close>; its \<open>is_section\<close> is that of the retrieved chunk
  with the id (of the last one, if several have it); its \<open>document_name\<close> is the
  \<open>document_name\<close> field of the source, \<open>unknown\<close> when the source has none; its \<open>page\<close> is
  the \<open>page\<close> field of the source, 0 when the source has none.
\<close>

theorem source_reference_fields:
  assumes "parse_response loads response_text retrieved_chunks = Inr resp"
      and "loads (strip (extract_json_text response_text)) = Inr parsed"
      and "dict_get parsed ''sources'' (PList []) = Inr raw"
      and "py_iter raw = Inr items"
      and "source \<in> set items"
      and "dict_get source ''chunk_id'' (PStr []) = Inr (PStr s)"
      and "s \<in> rc_chunk_id ` set retrieved_chunks"
  shows "\<exists>ref. ref \<in> set (sources resp) \<and> sr_chunk_id ref = s
           \<and> dict_get source ''document_name'' (PStr ''unknown'') = Inr (sr_document_name ref)
           \<and> dict_get source ''page'' (PInt 0) = Inr (sr_page ref)
           \<and> sr_is_section ref =
               rc_is_section (last (filter (\<lambda>c. rc_chunk_id c = s) retrieved_chunks))"
proof -
  let ?m = "chunk_section_map retrieved_chunks"
  from assms(1)
    parse_response_decoded [where loads = loads and response_text = response_text, OF assms(2)]
  have validated: "validate parsed retrieved_chunks = Inr resp" by simp
  from validate_sources [OF validated] assms(3,4)
  have collected: "collect_sources ?m items = Inr (sources resp)" by auto
  from collect_sources_complete [OF collected assms(5)] obtain r where
    r: "check_source ?m source = Inr r" and
    member: "\<forall>ref. r = Some ref \<longrightarrow> ref \<in> set (sources resp)" by blast
  from assms(7) have "?m s \<noteq> None" by (simp add: chunk_section_map_None)
  from check_source_valid [OF r assms(6) this] obtain ref where ref: "r = Some ref" by blast
  from check_source_Some [of ?m source ref] r ref assms(6)
  have fields: "sr_chunk_id ref = s"
    "dict_get source ''document_name'' (PStr ''unknown'') = Inr (sr_document_name ref)"
    "dict_get source ''page'' (PInt 0) = Inr (sr_page ref)"
    "?m s = Some (sr_is_section ref)" by auto
  from chunk_section_map_Some [OF fields(4)] member ref fields(1,2,3) show ?thesis by blast
qed

theorem source_reference_fields_witness:
  "parse_response sample_loads text_mixed [chunk_c1] =
     Inr \<lparr>answer = PStr ''Paris.'',
          sources = [\<lparr>sr_document_name = PStr ''b.txt'', sr_page = PInt 0,
                      sr_chunk_id = ''c1'', sr_is_section = True\<rparr>]\<rparr>
   \<and> ''c1'' \<in> rc_chunk_id ` set [chunk_c1]
   \<and> (\<exists>ref. ref = \<lparr>sr_document_name = PStr ''b.txt'', sr_page = PInt 0,
                     sr_chunk_id = ''c1'', sr_is_section = True\<rparr>
          \<and> sr_is_section ref = rc_is_section chunk_c1)"
proof -
  let ?resp = "\<lparr>answer = PStr ''Paris.'',
                 sources = [\<lparr>sr_document_name = PStr ''b.txt'', sr_page = PInt 0,
                             sr_chunk_id = ''c1'', sr_is_section = True\<rparr>]\<rparr>"
  let ?source = "PDict [(''document_name'', PStr ''b.txt''), (''chunk_id'', PStr ''c1'')]"
  let ?items = "[?source, PDict [(''chunk_id'', PStr ''bogus_id'')]]"
  let ?parsed = "PDict [(''answer'', PStr ''Paris.''), (''sources'', PList ?items)]"
  have run: "parse_response sample_loads text_mixed [chunk_c1] = Inr ?resp"
    by (simp add: validator_defs sample_defs)
  have loaded: "sample_loads (strip (extract_json_text text_mixed)) = Inr ?parsed"
    by (simp add: validator_defs sample_defs)
  have raw: "dict_get ?parsed ''sources'' (PList []) = Inr (PList ?items)" by simp
  have items: "py_iter (PList ?items) = Inr ?items" by simp
  have source: "?source \<in> set ?items" by simp
  have cid: "dict_get ?source ''chunk_id'' (PStr []) = Inr (PStr ''c1'')" by simp
  have retrieved: "''c1'' \<in> rc_chunk_id ` set [chunk_c1]" by (simp add: chunk_c1_def)
  from source_reference_fields [OF run loaded raw items source cid retrieved] run retrieved
  show ?thesis by (auto simp: chunk_c1_def)
qed

text \<open>
  C3, as the claim states it, fails: a payload that gives the refusal string as its answer
  and cites a retrieved chunk is returned with that answer and a non-empty list of sources.
\<close>

theorem refusal_invariant_counterexample:
  "generate sample_loads \<lparr>client = Some (fixed_client text_refusal_cited)\<rparr> ''Which city?''
       [chunk_c1] =
     (Inr \<lparr>answer = PStr NO_INFO_RESPONSE,
           sources = [\<lparr>sr_document_name = PStr ''unknown'', sr_page = PInt 0,
                       sr_chunk_id = ''c1'', sr_is_section = True\<rparr>]\<rparr>,
      [build_user_message ''Which city?'' (format_context [chunk_c1])])"
  by (simp add: generate_def validator_defs sample_defs)

text \<open>
  C3, amended. A response of the answer operation pairs the refusal string with a non-empty
  list of sources exactly when the decoded payload does: its answer is the refusal string
  (or it has no answer field) and one of its sources has the \<open>chunk_id\<close> of a retrieved chunk.
  For every other response, an answer equal to the refusal string comes with no sources,
  and sources come with an answer that differs from the refusal string.
\<close>

theorem refusal_invariant:
  assumes "generate loads self question retrieved_chunks = (Inr resp, calls)"
  shows "(answer resp = PStr NO_INFO_RESPONSE \<and> sources resp \<noteq> []) \<longleftrightarrow>
         (\<exists>call content parsed raw items source s.
            client self = Some call \<and> retrieved_chunks \<noteq> []
            \<and> call (build_user_message question (format_context retrieved_chunks)) = Inr content
            \<and> loads (strip (extract_json_text (strip content))) = Inr parsed
            \<and> dict_get parsed ''answer'' (PStr NO_INFO_RESPONSE) = Inr (PStr NO_INFO_RESPONSE)
            \<and> dict_get parsed ''sources'' (PList []) = Inr raw \<and> py_iter raw = Inr items
            \<and> source \<in> set items
            \<and> dict_get source ''chunk_id'' (PStr []) = Inr (PStr s)
            \<and> s \<in> rc_chunk_id ` set retrieved_chunks)"
    (is "?violated \<longleftrightarrow> ?payload")
proof
  let ?m = "chunk_section_map retrieved_chunks"
  assume violated: ?violated
  then have "resp \<noteq> refusal" by (auto simp: refusal_def)
  with generate_cases [OF assms] obtain call content where
    call: "client self = Some call" "retrieved_chunks \<noteq> []"
      "call (build_user_message question (format_context retrieved_chunks)) = Inr content" and
    parsed: "parse_response loads (strip content) retrieved_chunks = Inr resp" by blast
  from parse_response_cases [OF parsed] \<open>resp \<noteq> refusal\<close> obtain parsed where
    loaded: "loads (strip (extract_json_text (strip content))) = Inr parsed" and
    validated: "validate parsed retrieved_chunks = Inr resp" by blast
  from validate_sources [OF validated] obtain raw items where
    ans: "dict_get parsed ''answer'' (PStr NO_INFO_RESPONSE) = Inr (answer resp)" and
    raw: "dict_get parsed ''sources'' (PList []) = Inr raw" "py_iter raw = Inr items" and
    collected: "collect_sources ?m items = Inr (sources resp)" by blast
  from violated obtain ref where "ref \<in> set (sources resp)" by (cases "sources resp") auto
  from collect_sources_sound [OF collected this] obtain source where
    source: "source \<in> set items" "check_source ?m source = Inr (Some ref)" by blast
  from check_source_Some [OF source(2)]
  have cid: "dict_get source ''chunk_id'' (PStr []) = Inr (PStr (sr_chunk_id ref))"
    and "?m (sr_chunk_id ref) \<noteq> None" by auto
  then have "sr_chunk_id ref \<in> rc_chunk_id ` set retrieved_chunks"
    by (simp add: chunk_section_map_None)
  with call loaded ans raw source(1) cid violated show ?payload by force
next
  let ?m = "chunk_section_map retrieved_chunks"
  assume ?payload
  then obtain call content parsed raw items source s where
    call: "client self = Some call" "retrieved_chunks \<noteq> []"
      "call (build_user_message question (format_context retrieved_chunks)) = Inr content" and
    loaded: "loads (strip (extract_json_text (strip content))) = Inr parsed" and
    ans: "dict_get parsed ''answer'' (PStr NO_INFO_RESPONSE) = Inr (PStr NO_INFO_RESPONSE)" and
    raw: "dict_get parsed ''sources'' (PList []) = Inr raw" "py_iter raw = Inr items" and
    source: "source \<in> set items" "dict_get source ''chunk_id'' (PStr []) = Inr (PStr s)"
      "s \<in> rc_chunk_id ` set retrieved_chunks" by blast
  from assms call
    parse_response_decoded [where loads = loads and response_text = "strip content", OF loaded]
  have validated: "validate parsed retrieved_chunks = Inr resp"
    by (simp add: generate_def)
  from validate_sources [OF validated] ans raw
  have answer: "answer resp = PStr NO_INFO_RESPONSE" and
    collected: "collect_sources ?m items = Inr (sources resp)" by auto
  from collect_sources_complete [OF collected source(1)] obtain r where
    r: "check_source ?m source = Inr r" and
    member: "\<forall>ref. r = Some ref \<longrightarrow> ref \<in> set (sources resp)" by blast
  from source(3) have "?m s \<noteq> None" by (simp add: chunk_section_map_None)
  from check_source_valid [OF r source(2) this] member have "sources resp \<noteq> []" by auto
  with answer show ?violated by simp
qed

theorem refusal_invariant_witness:
  "generate sample_loads \<lparr>client = Some (fixed_client text_bogus)\<rparr> ''Which city?'' [chunk_c1] =
     (Inr \<lparr>answer = PStr ''Paris.'', sources = []\<rparr>,
      [build_user_message ''Which city?'' (format_context [chunk_c1])])
   \<and> \<not> (\<exists>call content parsed raw items source s.
            client \<lparr>client = Some (fixed_client text_bogus)\<rparr> = Some call \<and> [chunk_c1] \<noteq> []
            \<and> call (build_user_message ''Which city?'' (format_context [chunk_c1])) = Inr content
            \<and> sample_loads (strip (extract_json_text (strip content))) = Inr parsed
            \<and> dict_get parsed ''answer'' (PStr NO_INFO_RESPONSE) = Inr (PStr NO_INFO_RESPONSE)
            \<and> dict_get parsed ''sources'' (PList []) = Inr raw \<and> py_iter raw = Inr items
            \<and> source \<in> set items
            \<and> dict_get source ''chunk_id'' (PStr []) = Inr (PStr s)
            \<and> s \<in> rc_chunk_id ` set [chunk_c1])"
proof -
  have run: "generate sample_loads \<lparr>client = Some (fixed_client text_bogus)\<rparr> ''Which city?''
       [chunk_c1] =
     (Inr \<lparr>answer = PStr ''Paris.'', sources = []\<rparr>,
      [build_user_message ''Which city?'' (format_context [chunk_c1])])"
    by (simp add: generate_def validator_defs sample_defs)
  from refusal_invariant [OF run] run show ?thesis by simp
qed

text \<open>
  C4, as the claim states it, fails: a completion of a thousand opening brackets is not
  valid JSON, and \<open>json.loads\<close> raises a \<open>RecursionError\<close> on it, which the \<open>except\<close> clause
  for \<open>JSONDecodeError\<close> does not catch: the answer operation raises.
\<close>

theorem undecodable_completion_counterexample:
  "sample_loads (strip (extract_json_text (strip text_deep))) = Inl RecursionError
   \<and> generate sample_loads \<lparr>client = Some (fixed_client text_deep)\<rparr> ''Which city?''
         [chunk_c1] =
       (Inl RecursionError, [build_user_message ''Which city?'' (format_context [chunk_c1])])"
proof -
  have loaded: "sample_loads (strip (extract_json_text (strip text_deep))) = Inl RecursionError"
    by (simp only: deep_completion sample_loads_deep)
  from parse_response_undecoded
         [where loads = sample_loads and response_text = "strip text_deep", OF loaded]
  have "parse_response sample_loads (strip text_deep) [chunk_c1] = Inl RecursionError"
    by simp
  with loaded show ?thesis by (simp add: generate_def fixed_client_def)
qed

text \<open>
  C4, amended. When \<open>json.loads\<close> raises on the completion, its code fence removed, the
  outcome of the answer operation depends on the exception: for a \<open>JSONDecodeError\<close> it
  returns the refusal string with no sources and does not raise; any other exception of the
  decoder (a \<open>RecursionError\<close>, a \<open>ValueError\<close> that is not a \<open>JSONDecodeError\<close>) is raised by
  the answer operation. The run is one that reaches the decoder: the generator has a
  client, the page numbers of the retrieved chunks can be formatted into the context, and
  the generation service returns the completion.
\<close>

theorem undecodable_completion_outcome:
  assumes "client self = Some call"
      and "retrieved_chunks \<noteq> []"
      and "\<forall>chunk \<in> set retrieved_chunks. within_digit_limit (rc_page_number chunk)"
      and "call (build_user_message question (format_context retrieved_chunks)) = Inr content"
      and "loads (strip (extract_json_text (strip content))) = Inl e"
  shows "parse_response loads (strip content) retrieved_chunks =
           (if e = JSONDecodeError
            then Inr \<lparr>answer = PStr NO_INFO_RESPONSE, sources = []\<rparr> else Inl e)
       \<and> generate loads self question retrieved_chunks =
           (if e = JSONDecodeError
            then Inr \<lparr>answer = PStr NO_INFO_RESPONSE, sources = []\<rparr> else Inl e,
            [build_user_message question (format_context retrieved_chunks)])"
  using assms
    parse_response_undecoded [where loads = loads and response_text = "strip content",
      OF assms(5)]
  by (simp add: generate_def refusal_def)

theorem undecodable_completion_outcome_witness:
  "strip (extract_json_text (strip text_fenced)) = ''Paris.''
   \<and> sample_loads ''Paris.'' = Inl JSONDecodeError
   \<and> generate sample_loads \<lparr>client = Some (fixed_client text_fenced)\<rparr> ''Which city?''
         [chunk_c1] =
       (Inr \<lparr>answer = PStr NO_INFO_RESPONSE, sources = []\<rparr>,
        [build_user_message ''Which city?'' (format_context [chunk_c1])])
   \<and> sample_loads (strip (extract_json_text (strip text_deep))) = Inl RecursionError
   \<and> parse_response sample_loads (strip text_deep) [chunk_c1] = Inl RecursionError"
proof -
  have nonempty: "[chunk_c1] \<noteq> []" by simp
  have pages: "\<forall>chunk \<in> set [chunk_c1]. within_digit_limit (rc_page_number chunk)"
    by (simp add: chunk_c1_def small_within_digit_limit)
  have configured:
    "client \<lparr>client = Some (fixed_client text_fenced)\<rparr> = Some (fixed_client text_fenced)"
    by simp
  have completion:
    "fixed_client text_fenced (build_user_message ''Which city?'' (format_context [chunk_c1])) =
       Inr text_fenced"
    by (simp add: fixed_client_def)
  have undecodable: "sample_loads (strip (extract_json_text (strip text_fenced))) =
                       Inl JSONDecodeError"
    by (simp only: fenced_completion sample_loads_fenced)
  have configured_deep:
    "client \<lparr>client = Some (fixed_client text_deep)\<rparr> = Some (fixed_client text_deep)"
    by simp
  have completion_deep:
    "fixed_client text_deep (build_user_message ''Which city?'' (format_context [chunk_c1])) =
       Inr text_deep"
    by (simp add: fixed_client_def)
  have too_deep: "sample_loads (strip (extract_json_text (strip text_deep))) =
                    Inl RecursionError"
    by (simp only: deep_completion sample_loads_deep)
  from undecodable_completion_outcome
         [where loads = sample_loads and call = "fixed_client text_fenced"
            and content = text_fenced, OF configured nonempty pages completion undecodable]
    undecodable_completion_outcome
         [where loads = sample_loads and call = "fixed_client text_deep"
            and content = text_deep, OF configured_deep nonempty pages completion_deep too_deep]
    fenced_completion sample_loads_fenced too_deep
  show ?thesis by simp
qed

text \<open>
  C5, as the claim states it, fails: a generator without a configured client, as
  \<open>__init__\<close> builds it from the empty API key, raises the configuration error on an empty
  list of retrieved chunks.
\<close>

theorem empty_context_counterexample:
  "generate sample_loads (AnswerGenerator_init fixed_client []) ''Which city?'' [] =
     (Inl RuntimeError, [])"
  by (simp add: generate_def AnswerGenerator_init_def)

text \<open>
  C5, amended. For every question, the answer operation on an empty list of retrieved
  chunks never invokes the generation service; it returns the refusal string and no sources
  when the generator has a client, and raises the configuration error when it has none.
\<close>

theorem empty_context_refused:
  "generate loads self question [] =
     ((case client self of
         None \<Rightarrow> Inl RuntimeError
       | Some call \<Rightarrow> Inr \<lparr>answer = PStr NO_INFO_RESPONSE, sources = []\<rparr>), [])"
  by (simp add: generate_def refusal_def split: option.splits)

text \<open>
  C10. A completion that decodes to a JSON value other than an object makes
  \<open>_parse_response\<close> raise: \<open>parsed.get\<close> is an \<open>AttributeError\<close>, which the \<open>except\<close> clause for
  \<open>JSONDecodeError\<close> does not catch. The JSON array \<open>[]\<close> is such a completion.
\<close>

theorem non_object_payload_raises:
  assumes "loads (strip (extract_json_text response_text)) = Inr parsed"
      and "\<forall>kvs. parsed \<noteq> PDict kvs"
  shows "parse_response loads response_text retrieved_chunks = Inl AttributeError"
  using assms by (cases parsed) (simp_all add: parse_response_def parse_body_def validate_def)

theorem non_object_payload_raises_witness:
  "sample_loads (strip (extract_json_text text_array)) = Inr (PList [])
   \<and> parse_response sample_loads text_array [chunk_c1] = Inl AttributeError"
proof -
  have loaded: "sample_loads (strip (extract_json_text text_array)) = Inr (PList [])"
    by (simp add: validator_defs sample_defs)
  have shape: "\<forall>kvs. PList [] \<noteq> PDict kvs" by simp
  from non_object_payload_raises
         [where loads = sample_loads and response_text = text_array, OF loaded shape] loaded
  show ?thesis by simp
qed

section \<open>Claims about the chunker\<close>

text \<open>
  The ids of a run are, page by page in the order of the pages, the ids made from the name
  and the number of the page and the indices 0, 1, 2, ... of its chunks.
\<close>

lemma chunk_pages_ids_by_page:
  assumes "chunk_pages md5 self pages = Some (Inr out)"
  shows "\<exists>counts. length counts = length pages
           \<and> map tc_chunk_id out =
               concat (map2 (\<lambda>page n. map (generate_chunk_id md5 (dp_document_name page)
                                               (dp_page_number page)) [0..<n])
                         pages counts)"
  using assms
proof (induction pages arbitrary: out)
  case Nil
  then show ?case by simp
next
  case (Cons page pages)
  from Cons.prems obtain chunks all_chunks where
    first: "chunk_text md5 self (dp_text page) (dp_document_name page) (dp_page_number page)
              (dp_is_section page) = Some (Inr chunks)" and
    rest: "chunk_pages md5 self pages = Some (Inr all_chunks)" and
    out: "out = chunks @ all_chunks"
    by (auto split: option.splits sum.splits)
  from Cons.IH [OF rest] obtain counts where
    counts: "length counts = length pages" and
    ids: "map tc_chunk_id all_chunks =
            concat (map2 (\<lambda>page n. map (generate_chunk_id md5 (dp_document_name page)
                                            (dp_page_number page)) [0..<n])
                      pages counts)"
    by blast
  let ?counts = "length chunks # counts"
  from counts have "length ?counts = length (page # pages)" by simp
  moreover from out ids chunk_text_ids [OF first]
  have "map tc_chunk_id out =
          concat (map2 (\<lambda>page n. map (generate_chunk_id md5 (dp_document_name page)
                                          (dp_page_number page)) [0..<n])
                    (page # pages) ?counts)"
    by simp
  ultimately show ?case by blast
qed

text \<open>
  C6, as the claim states it, fails: a chunker with a chunk size of 10 and an overlap of 10,
  a configuration without \<open>chunk_size > overlap\<close>, is built and used; the chunk operation
  returns the chunk of the page and raises nothing.
\<close>

theorem configuration_check_counterexample:
  "TextChunker_init default_settings (Some 10) (Some 10) = \<lparr>chunk_size = 10, chunk_overlap = 10\<rparr>
   \<and> chunk_document sample_md5 default_settings (Some 10) (Some 10) [page_berlin] =
       Some (Inr [\<lparr>tc_document_name = ''a.txt'', tc_page_number = 2,
                   tc_chunk_id = ''a.txt_p2_c0_192a44b6'', tc_text = ''Berlin.'',
                   tc_is_section = False\<rparr>])"
proof (intro conjI)
  show init: "TextChunker_init default_settings (Some 10) (Some 10) =
                \<lparr>chunk_size = 10, chunk_overlap = 10\<rparr>"
    by (simp add: TextChunker_init_def int_or_def)
  have fields: "dp_document_name page_berlin = ''a.txt''" "dp_page_number page_berlin = 2"
    "dp_is_section page_berlin = False"
    by (simp_all add: page_berlin_def)
  have out: "map (\<lambda>page. new_chunk sample_md5 (dp_document_name page) (dp_page_number page)
                            (dp_is_section page) 0 (strip (dp_text page)))
               (filter (\<lambda>page. strip (dp_text page) \<noteq> []) [page_berlin]) =
             [\<lparr>tc_document_name = ''a.txt'', tc_page_number = 2,
               tc_chunk_id = ''a.txt_p2_c0_192a44b6'', tc_text = ''Berlin.'',
               tc_is_section = False\<rparr>]"
    by (simp add: strip_berlin fields new_chunk_def sample_chunk_ids)
  have "\<forall>page \<in> set [page_berlin].
          int (length (strip (dp_text page))) \<le> chunk_size \<lparr>chunk_size = 10, chunk_overlap = 10\<rparr>"
    by (simp add: strip_berlin)
  from chunk_pages_short [OF this, of sample_md5]
  show "chunk_document sample_md5 default_settings (Some 10) (Some 10) [page_berlin] =
          Some (Inr [\<lparr>tc_document_name = ''a.txt'', tc_page_number = 2,
                      tc_chunk_id = ''a.txt_p2_c0_192a44b6'', tc_text = ''Berlin.'',
                      tc_is_section = False\<rparr>])"
    unfolding chunk_document_def init out .
qed

text \<open>
  C6, amended. The chunk operation does not examine \<open>chunk_size\<close> and \<open>overlap\<close>: the
  chunker is built with the two values given, whatever their order and sign, a value of
  \<open>None\<close> or 0 replaced by the value of the settings. It never raises a configuration
  error: a run returns chunks, or raises the \<open>IndexError\<close> of the boundary search, or does
  not end. Pages that are, trimmed, no longer than \<open>chunk_size\<close> become one chunk each, the
  blank ones none, under every overlap. (The two values and the page numbers are integers
  that can be formatted: \<open>__init__\<close> logs the values and the ids hold the page numbers.)
\<close>

theorem no_configuration_check:
  assumes "within_digit_limit (int_or size_arg (st_chunk_size settings))"
      and "within_digit_limit (int_or overlap_arg (st_chunk_overlap settings))"
      and "\<forall>page \<in> set pages. within_digit_limit (dp_page_number page)"
  shows "chunk_document md5 settings size_arg overlap_arg pages =
           chunk_pages md5 \<lparr>chunk_size = int_or size_arg (st_chunk_size settings),
                             chunk_overlap = int_or overlap_arg (st_chunk_overlap settings)\<rparr>
             pages
       \<and> (chunk_document md5 settings size_arg overlap_arg pages = Some (Inl e) \<longrightarrow>
            e = IndexError)
       \<and> ((\<forall>page \<in> set pages.
              int (length (strip (dp_text page))) \<le> int_or size_arg (st_chunk_size settings)) \<longrightarrow>
            chunk_document md5 settings size_arg overlap_arg pages =
              Some (Inr (map (\<lambda>page. new_chunk md5 (dp_document_name page) (dp_page_number page)
                                        (dp_is_section page) 0 (strip (dp_text page)))
                           (filter (\<lambda>page. strip (dp_text page) \<noteq> []) pages))))"
proof (intro conjI impI)
  show "chunk_document md5 settings size_arg overlap_arg pages =
          chunk_pages md5 \<lparr>chunk_size = int_or size_arg (st_chunk_size settings),
                            chunk_overlap = int_or overlap_arg (st_chunk_overlap settings)\<rparr> pages"
    by (simp add: chunk_document_def TextChunker_init_def)
next
  assume "chunk_document md5 settings size_arg overlap_arg pages = Some (Inl e)"
  then show "e = IndexError"
    unfolding chunk_document_def by (rule chunk_pages_raises)
next
  assume "\<forall>page \<in> set pages.
            int (length (strip (dp_text page))) \<le> int_or size_arg (st_chunk_size settings)"
  then have "\<forall>page \<in> set pages.
               int (length (strip (dp_text page)))
                 \<le> chunk_size (TextChunker_init settings size_arg overlap_arg)"
    by (simp add: TextChunker_init_def)
  from chunk_pages_short [OF this]
  show "chunk_document md5 settings size_arg overlap_arg pages =
          Some (Inr (map (\<lambda>page. new_chunk md5 (dp_document_name page) (dp_page_number page)
                                    (dp_is_section page) 0 (strip (dp_text page)))
                       (filter (\<lambda>page. strip (dp_text page) \<noteq> []) pages)))"
    by (simp add: chunk_document_def)
qed

theorem no_configuration_check_witness:
  "chunk_document sample_md5 default_settings (Some (- 100)) None [page_berlin] =
     Some (Inl IndexError)
   \<and> int (length (strip (dp_text page_berlin))) \<le> int_or (Some 10) (st_chunk_size default_settings)
   \<and> chunk_document sample_md5 default_settings (Some 10) (Some (- 1)) [page_berlin] =
       Some (Inr [new_chunk sample_md5 ''a.txt'' 2 False 0 ''Berlin.''])"
proof (intro conjI)
  have fields: "dp_document_name page_berlin = ''a.txt''" "dp_page_number page_berlin = 2"
    "dp_is_section page_berlin = False"
    by (simp_all add: page_berlin_def)
  have sizes: "int_or (Some (- 100)) (st_chunk_size default_settings) = - 100"
    "int_or None (st_chunk_overlap default_settings) = 50"
    "int_or (Some 10) (st_chunk_size default_settings) = 10"
    "int_or (Some (- 1)) (st_chunk_overlap default_settings) = - 1"
    by (simp_all add: int_or_def default_settings_def)
  have limits: "within_digit_limit (- 100)" "within_digit_limit 50" "within_digit_limit 10"
    "within_digit_limit (- 1)"
    by (simp_all add: small_within_digit_limit)
  have pages: "\<forall>page \<in> set [page_berlin]. within_digit_limit (dp_page_number page)"
    by (simp add: fields small_within_digit_limit)
  have "chunk_text sample_md5 \<lparr>chunk_size = - 100, chunk_overlap = 50\<rparr> (dp_text page_berlin)
          (dp_document_name page_berlin) (dp_page_number page_berlin) (dp_is_section page_berlin) =
        Some (Inl IndexError)"
    by (simp add: chunk_text_def page_berlin_def strip_def is_space_def negative_size_loop)
  then have "chunk_pages sample_md5 \<lparr>chunk_size = - 100, chunk_overlap = 50\<rparr> [page_berlin] =
               Some (Inl IndexError)"
    by simp
  with no_configuration_check
         [where size_arg = "Some (- 100)" and settings = default_settings
            and overlap_arg = None and pages = "[page_berlin]" and ?md5.0 = sample_md5
            and e = IndexError, unfolded sizes, OF limits(1) limits(2) pages]
  show raised: "chunk_document sample_md5 default_settings (Some (- 100)) None [page_berlin] =
                  Some (Inl IndexError)"
    by (simp only: sizes)
  show fits: "int (length (strip (dp_text page_berlin)))
                \<le> int_or (Some 10) (st_chunk_size default_settings)"
    by (simp add: strip_berlin int_or_def)
  have "\<forall>page \<in> set [page_berlin]. int (length (strip (dp_text page))) \<le> 10"
    by (simp add: strip_berlin)
  with no_configuration_check
         [where size_arg = "Some 10" and settings = default_settings
            and overlap_arg = "Some (- 1)" and pages = "[page_berlin]" and ?md5.0 = sample_md5
            and e = IndexError, unfolded sizes, OF limits(3) limits(4) pages]
  have "chunk_document sample_md5 default_settings (Some 10) (Some (- 1)) [page_berlin] =
          Some (Inr (map (\<lambda>page. new_chunk sample_md5 (dp_document_name page)
                                    (dp_page_number page) (dp_is_section page) 0
                                    (strip (dp_text page)))
                       (filter (\<lambda>page. strip (dp_text page) \<noteq> []) [page_berlin])))"
    by blast
  then show "chunk_document sample_md5 default_settings (Some 10) (Some (- 1)) [page_berlin] =
               Some (Inr [new_chunk sample_md5 ''a.txt'' 2 False 0 ''Berlin.''])"
    by (simp add: strip_berlin fields)
qed

text \<open>
  C7. The code does not do what the claim, its own comment (\<open>Prevent infinite loop\<close>) and its
  own test (\<open>len(chunk.text) <= chunk_size + 50\<close>) expect. With a chunk size of 3 and an
  overlap of 2, on the text \<open>a. bbbbbbbb\<close> of 11 characters, the loop does not return: from
  the start 1 the sentence boundary 3 behind the window is taken as its end, and the next
  start is 1 again, so that the loop appends the chunk \<open>.\<close> for ever. With a chunk size of
  10 and an overlap of 2, a text of 70 characters without whitespace becomes a chunk of 70
  characters and one of 2: the word boundary is looked for without a bound.
\<close>

theorem chunk_text_failing_inputs:
  "chunk_text md5 \<lparr>chunk_size = 3, chunk_overlap = 2\<rparr> short_sentence ''a.txt'' 1 False = None
   \<and> chunk_text md5 \<lparr>chunk_size = 10, chunk_overlap = 2\<rparr> long_word ''a.txt'' 1 False =
       Some (Inr [new_chunk md5 ''a.txt'' 1 False 0 long_word,
                  new_chunk md5 ''a.txt'' 1 False 1 ''aa''])
   \<and> length short_sentence = 11 \<and> length long_word = 70"
proof -
  have "short_sentence \<noteq> []" "long_word \<noteq> []"
    by (simp_all add: short_sentence_def long_word_def)
  then show ?thesis
    by (simp add: chunk_text_def strip_short_sentence strip_long_word length_short_sentence
          length_long_word short_sentence_loop long_word_loop)
qed

text \<open>
  C8, as the claim states it, fails: a list that holds the same page twice gives two chunks
  with the same id.
\<close>

theorem chunk_ids_distinct_counterexample:
  "chunk_document sample_md5 default_settings None None [page_paris, page_paris] =
     Some (Inr [\<lparr>tc_document_name = ''a.txt'', tc_page_number = 1,
                 tc_chunk_id = ''a.txt_p1_c0_7aaf30b1'', tc_text = paris_text,
                 tc_is_section = False\<rparr>,
                \<lparr>tc_document_name = ''a.txt'', tc_page_number = 1,
                 tc_chunk_id = ''a.txt_p1_c0_7aaf30b1'', tc_text = paris_text,
                 tc_is_section = False\<rparr>])"
proof -
  have page: "strip (dp_text page_paris) = paris_text" "dp_document_name page_paris = ''a.txt''"
    "dp_page_number page_paris = 1" "dp_is_section page_paris = False"
    by (simp_all add: page_paris_def strip_paris_text)
  have nonempty: "paris_text \<noteq> []" by (simp add: paris_text_def)
  have "\<forall>page \<in> set [page_paris, page_paris].
          int (length (strip (dp_text page)))
            \<le> chunk_size (TextChunker_init default_settings None None)"
    by (simp add: page length_paris_text TextChunker_init_def int_or_def default_settings_def)
  from chunk_pages_short [OF this, of sample_md5] page nonempty show ?thesis
    by (simp add: chunk_document_def new_chunk_def sample_chunk_ids)
qed

text \<open>
  C8, amended. When no two pages of the list that are not blank have both the same
  document name and the same page number, the chunk ids of a run that returns are pairwise
  distinct. The ids are determined by the run's input: they are, page by page in the order of
  the pages, the ids generated from the document name and the page number of the page and
  the indices 0, 1, 2, ... of its chunks.
\<close>

theorem chunk_ids_distinct:
  assumes "chunk_document md5 settings size_arg overlap_arg pages = Some (Inr out)"
      and "distinct (map (\<lambda>page. (dp_document_name page, dp_page_number page))
                      (filter (\<lambda>page. strip (dp_text page) \<noteq> []) pages))"
  shows "distinct (map tc_chunk_id out)
       \<and> (\<exists>counts. length counts = length pages
             \<and> map tc_chunk_id out =
                 concat (map2 (\<lambda>page n. map (generate_chunk_id md5 (dp_document_name page)
                                                 (dp_page_number page)) [0..<n])
                           pages counts))"
  using assms chunk_pages_distinct chunk_pages_ids_by_page
  unfolding chunk_document_def by blast

theorem chunk_ids_distinct_witness:
  "chunk_document sample_md5 default_settings (Some 35) (Some 5) [page_paris, page_berlin] =
     Some (Inr [new_chunk sample_md5 ''a.txt'' 1 False 0 ''Paris is the capital of France.'',
                new_chunk sample_md5 ''a.txt'' 1 False 1 ''nce. It is in Europe.'',
                new_chunk sample_md5 ''a.txt'' 2 False 0 ''Berlin.''])
   \<and> distinct [''a.txt_p1_c0_7aaf30b1'', ''a.txt_p1_c1_0220adac'', ''a.txt_p2_c0_192a44b6'']"
proof -
  let ?self = "\<lparr>chunk_size = 35, chunk_overlap = 5\<rparr>"
  let ?out = "[new_chunk sample_md5 ''a.txt'' 1 False 0 ''Paris is the capital of France.'',
               new_chunk sample_md5 ''a.txt'' 1 False 1 ''nce. It is in Europe.'',
               new_chunk sample_md5 ''a.txt'' 2 False 0 ''Berlin.'']"
  have init: "TextChunker_init default_settings (Some 35) (Some 5) = ?self"
    by (simp add: TextChunker_init_def int_or_def)
  have nonempty: "paris_text \<noteq> []" by (simp add: paris_text_def)
  then have paris: "chunk_text sample_md5 ?self paris_text ''a.txt'' 1 False =
      Some (Inr [new_chunk sample_md5 ''a.txt'' 1 False 0 ''Paris is the capital of France.'',
                 new_chunk sample_md5 ''a.txt'' 1 False 1 ''nce. It is in Europe.''])"
    by (simp add: chunk_text_def strip_paris_text length_paris_text paris_text_loop)
  have berlin: "chunk_text sample_md5 ?self (dp_text page_berlin) ''a.txt'' 2 False =
      Some (Inr [new_chunk sample_md5 ''a.txt'' 2 False 0 ''Berlin.''])"
    using strip_berlin by (simp add: chunk_text_def) (simp add: page_berlin_def)
  have fields: "dp_text page_paris = paris_text" "dp_document_name page_paris = ''a.txt''"
    "dp_page_number page_paris = 1" "dp_is_section page_paris = False"
    "dp_document_name page_berlin = ''a.txt''" "dp_page_number page_berlin = 2"
    "dp_is_section page_berlin = False"
    by (simp_all add: page_paris_def page_berlin_def)
  from paris berlin
  have run: "chunk_document sample_md5 default_settings (Some 35) (Some 5)
               [page_paris, page_berlin] = Some (Inr ?out)"
    by (simp add: chunk_document_def init fields)
  have pages: "distinct (map (\<lambda>page. (dp_document_name page, dp_page_number page))
                  (filter (\<lambda>page. strip (dp_text page) \<noteq> []) [page_paris, page_berlin]))"
    by (simp add: fields strip_paris_text strip_berlin nonempty)
  from chunk_ids_distinct [OF run pages] run show ?thesis
    by (simp add: new_chunk_def sample_chunk_ids)
qed

section \<open>Claims about the retrieval adapter\<close>



end
